theory Spec2Isabelle
  imports Complex_Main
begin

section \<open>Values shared by the mesh pipeline and the pointer controller\<close>

text \<open>
  JavaScript numbers are modelled as reals: the rounding of IEEE doubles and of the final
  \<^verbatim>\<open>Float32Array\<close> is not computed, and where a statement is about distances it takes
  the displacement by rounding as a bound.  Array indices and colours are naturals,
  \<^verbatim>\<open>Date.now()\<close> is an integer number of milliseconds.  A thrown exception is a value.
\<close>

datatype error = TypeError

text \<open>
  What the code prints: the \<^verbatim>\<open>console.warn\<close> of the mesh builder with the geometry tag, and
  the \<^verbatim>\<open>console.error\<close> of \<^verbatim>\<open>initProvinces\<close> with the exception it caught.
\<close>

datatype logline = UnsupportedGeometry string | LoadProvincesFailed error

datatype jsval = JUndefined | JNull | JBool bool | JNum real | JStr string

type_synonym props = "string \<rightharpoonup> jsval"

text \<open>Reading a property of an object: an absent key reads as \<^verbatim>\<open>undefined\<close>.\<close>

definition getProp :: "props \<Rightarrow> string \<Rightarrow> jsval" where
  "getProp obj k = (case obj k of None \<Rightarrow> JUndefined | Some v \<Rightarrow> v)"

text \<open>The truthiness test of \<^verbatim>\<open>if (v)\<close>.\<close>

fun truthy :: "jsval \<Rightarrow> bool" where
  "truthy JUndefined = False"
| "truthy JNull = False"
| "truthy (JBool b) = b"
| "truthy (JNum x) = (x \<noteq> 0)"
| "truthy (JStr s) = (s \<noteq> [])"

section \<open>geoDataProcessor.js\<close>

subsection \<open>lonLatToCartesian\<close>

type_synonym vec3 = "real \<times> real \<times> real"

definition lonLatToCartesian :: "real \<Rightarrow> real \<Rightarrow> real \<Rightarrow> vec3" where
  "lonLatToCartesian lon lat r =
     (let phi = (90 - lat) * (pi / 180);
          theta = (lon + 180) * (pi / 180);
          x = - (sin phi * cos theta) * r;
          y = cos phi * r;
          z = sin phi * sin theta * r
      in (x, y, z))"



subsection \<open>Features, options, meshes\<close>

type_synonym coord = "real \<times> real"
type_synonym ring = "coord list"
type_synonym polygon = "ring list"

text \<open>
  \<^verbatim>\<open>feature.geometry\<close>: the tag \<^verbatim>\<open>type\<close> with the \<^verbatim>\<open>coordinates\<close> nested as the tag says.
  \<open>OtherGeometry t\<close> is a geometry whose tag \<open>t\<close> is neither \<^verbatim>\<open>'Polygon'\<close> nor
  \<^verbatim>\<open>'MultiPolygon'\<close>.  A feature may lack its geometry or its properties
  (\<^verbatim>\<open>null\<close>), which is \<open>None\<close>.
\<close>

datatype geometry = Polygon polygon | MultiPolygon "polygon list" | OtherGeometry string

record feature =
  geometry :: "geometry option"
  properties :: "props option"

datatype side = FrontSide | BackSide | DoubleSide

record material =
  color :: nat
  transparent :: bool
  opacity :: real
  side :: side
  shininess :: real
  emissive :: nat

record materialOptions =
  mo_color :: "nat option"
  mo_transparent :: "bool option"
  mo_opacity :: "real option"
  mo_shininess :: "real option"

record options =
  opt_radius :: "real option"
  opt_elevation :: "real option"
  opt_materialOptions :: "materialOptions option"

record mesh =
  position :: "real list"
  mesh_material :: material
  userData :: props

text \<open>
  The triangulator \<^verbatim>\<open>earcut(data, holeIndices, 2)\<close> is the npm package of that name, not
  code of this repository: it is a parameter of every function that calls it.
\<close>

type_synonym triangulator = "real list \<Rightarrow> nat list \<Rightarrow> nat list"

subsection \<open>processPolygon\<close>

text \<open>The two arrays of \<^verbatim>\<open>createProvinceMeshFromFeature\<close> that \<^verbatim>\<open>processPolygon\<close> appends to.\<close>

record build_state =
  geomPositions :: "real list"
  geom3DVertices :: "vec3 list"

definition spread :: "vec3 \<Rightarrow> real list" where
  "spread v = (case v of (x, y, z) \<Rightarrow> [x, y, z])"

text \<open>\<^verbatim>\<open>ring.forEach((coord) => ...)\<close>: appends to \<^verbatim>\<open>flat2D\<close> and to \<^verbatim>\<open>geom3DVertices\<close>.\<close>

fun forEachCoord :: "real \<Rightarrow> real \<Rightarrow> ring \<Rightarrow> real list \<times> vec3 list \<Rightarrow> real list \<times> vec3 list" where
  "forEachCoord rad elev [] (flat2D, g3) = (flat2D, g3)"
| "forEachCoord rad elev ((lon, lat) # rest) (flat2D, g3) =
     forEachCoord rad elev rest
       (flat2D @ [lon, lat], g3 @ [lonLatToCartesian lon lat (rad + elev)])"

text \<open>
  \<^verbatim>\<open>rings.forEach((ring, rIndex) => ...)\<close>.  \<^verbatim>\<open>flat2D.length / 2\<close> is exact, \<^verbatim>\<open>flat2D\<close>
  growing by two numbers at a time.
\<close>

fun forEachRing ::
  "real \<Rightarrow> real \<Rightarrow> ring list \<Rightarrow> nat \<Rightarrow> real list \<times> nat list \<times> vec3 list
     \<Rightarrow> real list \<times> nat list \<times> vec3 list" where
  "forEachRing rad elev [] rIndex acc = acc"
| "forEachRing rad elev (ring # rest) rIndex (flat2D, holeIndices, g3) =
     (let holeIndices' = (if rIndex > 0 then holeIndices @ [length flat2D div 2] else holeIndices);
          (flat2D', g3') = forEachCoord rad elev ring (flat2D, g3)
      in forEachRing rad elev rest (rIndex + 1) (flat2D', holeIndices', g3'))"

text \<open>
  The loop \<^verbatim>\<open>for (let i = 0; i < triangles.length; i += 3)\<close>.  An index outside
  \<^verbatim>\<open>geom3DVertices\<close>, or a missing second or third index, reads \<^verbatim>\<open>undefined\<close>, and
  spreading \<^verbatim>\<open>undefined\<close> into \<^verbatim>\<open>push\<close> throws a TypeError.
\<close>

fun emitTriangles :: "vec3 list \<Rightarrow> nat list \<Rightarrow> real list \<Rightarrow> error + real list" where
  "emitTriangles g3 (ia # ib # ic # rest) pos =
     (if ia < length g3 \<and> ib < length g3 \<and> ic < length g3
      then emitTriangles g3 rest (pos @ spread (g3 ! ia) @ spread (g3 ! ib) @ spread (g3 ! ic))
      else Inl TypeError)"
| "emitTriangles g3 [] pos = Inr pos"
| "emitTriangles g3 [ia] pos = Inl TypeError"
| "emitTriangles g3 [ia, ib] pos = Inl TypeError"

definition processPolygon ::
  "triangulator \<Rightarrow> real \<Rightarrow> real \<Rightarrow> polygon \<Rightarrow> build_state \<Rightarrow> error + build_state" where
  "processPolygon earcut rad elev rings st =
     (case forEachRing rad elev rings 0 ([], [], geom3DVertices st) of
        (flat2D, holeIndices, g3) \<Rightarrow>
          (case emitTriangles g3 (earcut flat2D holeIndices) (geomPositions st) of
             Inl e \<Rightarrow> Inl e
           | Inr pos \<Rightarrow> Inr \<lparr>geomPositions = pos, geom3DVertices = g3\<rparr>))"

text \<open>\<^verbatim>\<open>feature.geometry.coordinates.forEach((polygon) => processPolygon(polygon))\<close>.\<close>

fun forEachPolygon ::
  "triangulator \<Rightarrow> real \<Rightarrow> real \<Rightarrow> polygon list \<Rightarrow> build_state \<Rightarrow> error + build_state" where
  "forEachPolygon earcut rad elev [] st = Inr st"
| "forEachPolygon earcut rad elev (p # ps) st =
     (case processPolygon earcut rad elev p st of
        Inl e \<Rightarrow> Inl e
      | Inr st' \<Rightarrow> forEachPolygon earcut rad elev ps st')"

subsection \<open>createProvinceMeshFromFeature\<close>

definition defaultMat :: material where
  "defaultMat = \<lparr>color = 0xff5533, transparent = True, opacity = 85 / 100,
                 side = DoubleSide, shininess = 10, emissive = 0\<rparr>"

text \<open>
  \<^verbatim>\<open>Object.assign(defaultMat, materialOptions)\<close>: every key the options give replaces the
  default.  \<^verbatim>\<open>emissive\<close> keeps the black of a new \<^verbatim>\<open>MeshPhongMaterial\<close>.
\<close>

definition assignMaterial :: "material \<Rightarrow> materialOptions \<Rightarrow> material" where
  "assignMaterial d mo =
     d\<lparr>color := (case mo_color mo of None \<Rightarrow> color d | Some c \<Rightarrow> c),
       transparent := (case mo_transparent mo of None \<Rightarrow> transparent d | Some t \<Rightarrow> t),
       opacity := (case mo_opacity mo of None \<Rightarrow> opacity d | Some p \<Rightarrow> p),
       shininess := (case mo_shininess mo of None \<Rightarrow> shininess d | Some s \<Rightarrow> s)\<rparr>"

definition noMaterialOptions :: materialOptions where
  "noMaterialOptions = \<lparr>mo_color = None, mo_transparent = None, mo_opacity = None,
                        mo_shininess = None\<rparr>"

definition optRadius :: "options \<Rightarrow> real" where
  "optRadius opts = (case opt_radius opts of None \<Rightarrow> 2 | Some r \<Rightarrow> r)"

definition optElevation :: "options \<Rightarrow> real" where
  "optElevation opts = (case opt_elevation opts of None \<Rightarrow> 2 / 100 | Some e \<Rightarrow> e)"

definition optMaterialOptions :: "options \<Rightarrow> materialOptions" where
  "optMaterialOptions opts =
     (case opt_materialOptions opts of None \<Rightarrow> noMaterialOptions | Some m \<Rightarrow> m)"

text \<open>
  The dispatch on \<^verbatim>\<open>feature.geometry.type\<close>: the lines \<^verbatim>\<open>console.warn\<close> prints, and the two
  arrays or the exception.  Reading \<^verbatim>\<open>.type\<close> of an absent geometry throws.
\<close>

definition buildPositions ::
  "triangulator \<Rightarrow> feature \<Rightarrow> options \<Rightarrow> logline list \<times> (error + build_state)" where
  "buildPositions earcut f opts =
     (let st0 = \<lparr>geomPositions = [], geom3DVertices = []\<rparr> in
      case geometry f of
        None \<Rightarrow> ([], Inl TypeError)
      | Some (Polygon rings) \<Rightarrow>
          ([], processPolygon earcut (optRadius opts) (optElevation opts) rings st0)
      | Some (MultiPolygon polys) \<Rightarrow>
          ([], forEachPolygon earcut (optRadius opts) (optElevation opts) polys st0)
      | Some (OtherGeometry geomType) \<Rightarrow>
          ([UnsupportedGeometry geomType], Inr st0))"

text \<open>
  The result is the console output with either the exception or the returned value
  (\<open>None\<close> is \<^verbatim>\<open>null\<close>).  Vertex normals are derived data of the rendering library and are
  not part of the model.
\<close>

definition createProvinceMeshFromFeature ::
  "triangulator \<Rightarrow> feature \<Rightarrow> options \<Rightarrow> logline list \<times> (error + mesh option)" where
  "createProvinceMeshFromFeature earcut f opts =
     (case buildPositions earcut f opts of
        (warned, Inl e) \<Rightarrow> (warned, Inl e)
      | (warned, Inr st) \<Rightarrow>
          if length (geomPositions st) = 0 then (warned, Inr None)
          else (warned, Inr (Some
            \<lparr>position = geomPositions st,
             mesh_material = assignMaterial defaultMat (optMaterialOptions opts),
             userData = (Map.empty ++ (case properties f of None \<Rightarrow> Map.empty | Some p \<Rightarrow> p))
                          ++ [''isProvince'' \<mapsto> JBool True]\<rparr>)))"

section \<open>EarthScene.vue\<close>

subsection \<open>createProvincesFromGeoJson and initProvinces\<close>

definition provinceColors :: "nat list" where
  "provinceColors =
     [0xff6b6b, 0x4ecdc4, 0x45b7d1, 0x96ceb4, 0xfeca57, 0xff9ff3, 0x54a0ff, 0x5f27cd, 0x00d2d3,
      0xff9f43, 0x10ac84, 0xee5a24, 0xa3cb38, 0xc44569, 0xd980fa]"

text \<open>
  The options object the assembler passes for a colour index (\<^verbatim>\<open>lineColor\<close> and
  \<^verbatim>\<open>lineWidth\<close> are keys the builder never reads).  The index is below the length of
  the palette, so the read is in range.
\<close>

definition featureOptions :: "nat \<Rightarrow> options" where
  "featureOptions colorIndex =
     \<lparr>opt_radius = Some 2, opt_elevation = Some (2 / 100),
      opt_materialOptions = Some
        \<lparr>mo_color = Some (provinceColors ! colorIndex), mo_transparent = Some True,
         mo_opacity = Some (7 / 10), mo_shininess = Some 30\<rparr>\<rparr>"

text \<open>
  \<^verbatim>\<open>geoJson.features.forEach((feature, index) => ...)\<close>, with the console output so far and
  the children of the group so far.  Destructuring \<^verbatim>\<open>feature.properties\<close> throws when
  the feature has none; an exception leaves the loop and the function.
\<close>

fun forEachFeature ::
  "triangulator \<Rightarrow> feature list \<Rightarrow> nat \<Rightarrow> logline list \<times> mesh list
     \<Rightarrow> logline list \<times> (error + mesh list)" where
  "forEachFeature earcut [] index (out, grp) = (out, Inr grp)"
| "forEachFeature earcut (f # rest) index (out, grp) =
     (case properties f of
        None \<Rightarrow> (out, Inl TypeError)
      | Some p \<Rightarrow>
          (let name = getProp p ''name'';
               adcode = getProp p ''adcode'';
               colorIndex = index mod length provinceColors
           in case createProvinceMeshFromFeature earcut f (featureOptions colorIndex) of
                (warned, Inl e) \<Rightarrow> (out @ warned, Inl e)
              | (warned, Inr None) \<Rightarrow> forEachFeature earcut rest (index + 1) (out @ warned, grp)
              | (warned, Inr (Some m)) \<Rightarrow>
                  forEachFeature earcut rest (index + 1)
                    (out @ warned,
                     grp @ [m\<lparr>userData := userData m ++
                        [''provinceName'' \<mapsto> name, ''adcode'' \<mapsto> adcode,
                         ''isProvince'' \<mapsto> JBool True]\<rparr>])))"

definition createProvincesFromGeoJson ::
  "triangulator \<Rightarrow> feature list \<Rightarrow> logline list \<times> (error + mesh list)" where
  "createProvincesFromGeoJson earcut features = forEachFeature earcut features 0 ([], [])"

text \<open>
  \<^verbatim>\<open>initProvinces\<close>: the fetched and parsed document is an input (\<open>Inl\<close> when the fetch
  or the parse threw); the result is the console output and the children of \<^verbatim>\<open>earth\<close>,
  a group being the list of its meshes.  The one \<^verbatim>\<open>try\<close>/\<^verbatim>\<open>catch\<close> of the file is here.
\<close>

definition initProvinces ::
  "triangulator \<Rightarrow> error + feature list \<Rightarrow> mesh list list \<Rightarrow> logline list \<times> mesh list list" where
  "initProvinces earcut fetched earthChildren =
     (case fetched of
        Inl e \<Rightarrow> ([LoadProvincesFailed e], earthChildren)
      | Inr geoJson \<Rightarrow>
          (case createProvincesFromGeoJson earcut geoJson of
             (out, Inl e) \<Rightarrow> (out @ [LoadProvincesFailed e], earthChildren)
           | (out, Inr provinces) \<Rightarrow> (out, earthChildren @ [provinces])))"

subsection \<open>initRaycaster: the pointer controller\<close>

text \<open>
  Scene objects and material objects are identified by naturals.  A handler receives the
  event's client position, the value \<^verbatim>\<open>Date.now()\<close> has when it runs, and the objects
  \<^verbatim>\<open>raycaster.intersectObjects\<close> returns for that position, nearest first (the ray cast
  belongs to the rendering library).  The \<^verbatim>\<open>userData\<close> of the scene objects is not
  written by any handler and is a parameter.  \<^verbatim>\<open>onMouseMove\<close> is added twice as a listener
  of the same event, which registers it once.
\<close>

record event =
  clientX :: real
  clientY :: real
  now :: int
  intersects :: "nat list"

text \<open>
  The variables of the closure, with the part of the scene the handlers write: the
  \<^verbatim>\<open>material\<close> field of every object and the store of material objects, where
  \<open>nextMaterial\<close> is the address the next created material gets.
\<close>

record controller =
  isDragging :: bool
  mouseDownTime :: int
  mouseDownPosition :: "real \<times> real"
  hoveredProvince :: "nat option"
  originalMaterials :: "nat \<rightharpoonup> nat"
  objectMaterial :: "nat \<Rightarrow> nat"
  materialStore :: "nat \<Rightarrow> material"
  nextMaterial :: nat

definition initRaycaster :: "(nat \<Rightarrow> nat) \<Rightarrow> (nat \<Rightarrow> material) \<Rightarrow> nat \<Rightarrow> controller" where
  "initRaycaster mats store n =
     \<lparr>isDragging = False, mouseDownTime = 0, mouseDownPosition = (0, 0),
      hoveredProvince = None, originalMaterials = Map.empty,
      objectMaterial = mats, materialStore = store, nextMaterial = n\<rparr>"

definition onMouseDown :: "event \<Rightarrow> controller \<Rightarrow> controller" where
  "onMouseDown ev c =
     c\<lparr>isDragging := False, mouseDownTime := now ev,
       mouseDownPosition := (clientX ev, clientY ev)\<rparr>"

text \<open>The loop over \<^verbatim>\<open>intersects\<close> of \<^verbatim>\<open>onMouseMove\<close>, left at the first province.\<close>

fun firstProvince :: "(nat \<Rightarrow> props) \<Rightarrow> nat list \<Rightarrow> nat option" where
  "firstProvince ud [] = None"
| "firstProvince ud (obj # rest) =
     (if truthy (getProp (ud obj) ''isProvince'') then Some obj else firstProvince ud rest)"

text \<open>The first block of the hover change: the previous province gets its material back.\<close>

definition restorePrevious :: "controller \<Rightarrow> controller" where
  "restorePrevious c =
     (case hoveredProvince c of
        None \<Rightarrow> c
      | Some h \<Rightarrow>
          (case originalMaterials c h of
             None \<Rightarrow> c
           | Some m \<Rightarrow> c\<lparr>objectMaterial := (objectMaterial c)(h := m),
                          originalMaterials := (originalMaterials c)(h := None)\<rparr>))"

text \<open>
  The second block: the current material is saved, its clone is created at a new address,
  the two fields of the clone are set, and the clone becomes the material of the object.
\<close>

definition highlightCurrent :: "nat option \<Rightarrow> controller \<Rightarrow> controller" where
  "highlightCurrent currentHovered c =
     (case currentHovered of
        None \<Rightarrow> c
      | Some obj \<Rightarrow>
          (let saved = objectMaterial c obj;
               highlightMaterial = nextMaterial c;
               clone = materialStore c saved
           in c\<lparr>originalMaterials := (originalMaterials c)(obj \<mapsto> saved),
                materialStore := (materialStore c)
                  (highlightMaterial := clone\<lparr>emissive := 0x444444, opacity := 9 / 10\<rparr>),
                nextMaterial := nextMaterial c + 1,
                objectMaterial := (objectMaterial c)(obj := highlightMaterial)\<rparr>))"

text \<open>The first statement of \<^verbatim>\<open>onMouseMove\<close>.\<close>

definition markDragging :: "controller \<Rightarrow> controller" where
  "markDragging c = (if mouseDownTime c > 0 then c\<lparr>isDragging := True\<rparr> else c)"

definition onMouseMove :: "(nat \<Rightarrow> props) \<Rightarrow> event \<Rightarrow> controller \<Rightarrow> controller" where
  "onMouseMove ud ev c0 =
     (let c = markDragging c0;
          currentHovered = firstProvince ud (intersects ev)
      in if currentHovered \<noteq> hoveredProvince c
         then (highlightCurrent currentHovered (restorePrevious c))
                \<lparr>hoveredProvince := currentHovered\<rparr>
         else c)"

text \<open>
  \<^verbatim>\<open>handleValidClick\<close>: the loop over \<^verbatim>\<open>intersects\<close> that calls
  \<^verbatim>\<open>handleProvinceClick\<close> with the \<^verbatim>\<open>provinceName\<close> of the first province and stops.  The
  result is the name the selection carries, \<open>None\<close> when nothing is emitted.
\<close>

fun handleValidClick :: "(nat \<Rightarrow> props) \<Rightarrow> nat list \<Rightarrow> jsval option" where
  "handleValidClick ud [] = None"
| "handleValidClick ud (obj # rest) =
     (if truthy (getProp (ud obj) ''isProvince'')
      then Some (getProp (ud obj) ''provinceName'')
      else handleValidClick ud rest)"

definition onMouseUp :: "(nat \<Rightarrow> props) \<Rightarrow> event \<Rightarrow> controller \<Rightarrow> jsval option \<times> controller" where
  "onMouseUp ud ev c =
     (let clickDuration = now ev - mouseDownTime c;
          moveDistance = sqrt ((clientX ev - fst (mouseDownPosition c))\<^sup>2
                               + (clientY ev - snd (mouseDownPosition c))\<^sup>2);
          selection = (if clickDuration < 200 \<and> moveDistance < 5 \<and> \<not> isDragging c
                       then handleValidClick ud (intersects ev) else None)
      in (selection, c\<lparr>mouseDownTime := 0, isDragging := False\<rparr>))"

text \<open>A pointer event, and the controller after a sequence of them.\<close>

datatype pointer_event = Down event | Move event | Up event

fun handle :: "(nat \<Rightarrow> props) \<Rightarrow> pointer_event \<Rightarrow> controller \<Rightarrow> controller" where
  "handle ud (Down ev) c = onMouseDown ev c"
| "handle ud (Move ev) c = onMouseMove ud ev c"
| "handle ud (Up ev) c = snd (onMouseUp ud ev c)"

fun run :: "(nat \<Rightarrow> props) \<Rightarrow> pointer_event list \<Rightarrow> controller \<Rightarrow> controller" where
  "run ud [] c = c"
| "run ud (e # es) c = run ud es (handle ud e c)"

section \<open>The triangulator of the specification\<close>

text \<open>
  The triangulator is the npm package \<^verbatim>\<open>earcut\<close> and has no source in this repository.
  The specification asks for a two-dimensional ear-clipping triangulation over the
  flattened array that yields index triples, and explains ear clipping as the removal of
  one ear vertex after the other.  This section models that much; it is used for the one
  claim that is about what the triangulator returns.
\<close>

type_synonym point = "real \<times> real"

text \<open>The points of the flattened array, two numbers each.\<close>

fun pointsOf :: "real list \<Rightarrow> point list" where
  "pointsOf (x # y # rest) = (x, y) # pointsOf rest"
| "pointsOf rest = []"

text \<open>Twice the signed area of the triangle: positive when it winds counter-clockwise.\<close>

definition orient :: "point \<Rightarrow> point \<Rightarrow> point \<Rightarrow> real" where
  "orient a b c = (fst b - fst a) * (snd c - snd a) - (snd b - snd a) * (fst c - fst a)"

definition cross2 :: "point \<Rightarrow> point \<Rightarrow> real" where
  "cross2 a b = fst a * snd b - snd a * fst b"

text \<open>Twice the signed area of the closed ring (the shoelace sum).\<close>

fun chain2 :: "point list \<Rightarrow> real" where
  "chain2 (a # b # rest) = cross2 a b + chain2 (b # rest)"
| "chain2 rest = 0"

definition signedArea2 :: "point list \<Rightarrow> real" where
  "signedArea2 ps = (case ps of [] \<Rightarrow> 0 | a # rest \<Rightarrow> chain2 ps + cross2 (last ps) a)"

text \<open>Whether a point lies in the closed triangle, which winds counter-clockwise.\<close>

definition inTriangle :: "point \<Rightarrow> point \<Rightarrow> point \<Rightarrow> point \<Rightarrow> bool" where
  "inTriangle a b c p \<longleftrightarrow> 0 \<le> orient a b p \<and> 0 \<le> orient b c p \<and> 0 \<le> orient c a p"

text \<open>The neighbours, around the ring, of the vertex at a place of what is left of it.\<close>

definition prevIx :: "nat list \<Rightarrow> nat \<Rightarrow> nat" where
  "prevIx idx k = idx ! ((k + length idx - 1) mod length idx)"

definition nextIx :: "nat list \<Rightarrow> nat \<Rightarrow> nat" where
  "nextIx idx k = idx ! ((k + 1) mod length idx)"

text \<open>
  Modelled from the spec: an ear of the ring, a corner that turns the way the ring winds and
  whose triangle holds no other vertex of what is left of the ring.  A vertex at the place of
  one of the three corners, as the repeated first point of a closed ring, is not another
  vertex.
\<close>

definition isEar :: "point list \<Rightarrow> nat list \<Rightarrow> nat \<Rightarrow> bool" where
  "isEar pts idx k \<longleftrightarrow>
     (let a = pts ! prevIx idx k; b = pts ! (idx ! k); c = pts ! nextIx idx k
      in 0 < orient a b c \<and>
         list_all (\<lambda>j. pts ! j = a \<or> pts ! j = b \<or> pts ! j = c \<or>
                       \<not> inTriangle a b c (pts ! j)) idx)"

text \<open>
  Modelled from the spec: ear clipping.  The first ear found is cut off as a triangle of
  three indices and its vertex leaves the ring; this is repeated until fewer than three
  vertices are left or no corner is an ear.
\<close>

function clip :: "point list \<Rightarrow> nat list \<Rightarrow> nat list" where
  "clip pts idx =
     (if length idx < 3 then []
      else case List.find (isEar pts idx) [0..<length idx] of
             None \<Rightarrow> []
           | Some k \<Rightarrow>
               [prevIx idx k, idx ! k, nextIx idx k] @ clip pts (take k idx @ drop (Suc k) idx))"
  by pat_completeness auto
termination
proof (relation "measure (\<lambda>(pts, idx). length idx)")
  show "wf (measure (\<lambda>(pts, idx). length idx))"
    by simp
next
  fix pts :: "point list" and idx :: "nat list" and k
  assume "\<not> length idx < 3" and "List.find (isEar pts idx) [0..<length idx] = Some k"
  then have "k < length idx"
    by (auto simp: find_Some_iff)
  then show "((pts, take k idx @ drop (Suc k) idx), (pts, idx)) \<in> measure (\<lambda>(pts, idx). length idx)"
    by simp
qed

declare clip.simps [simp del]

text \<open>
  Modelled from the spec: the triangulator on the flattened array and the hole starts.  The
  ring is walked counter-clockwise, the winding being read off the signed area.  The
  elimination of holes is not modelled: of a polygon with holes the outer ring alone is
  clipped.
\<close>

definition earcutSpec :: triangulator where
  "earcutSpec data holeIndices =
     (let pts = pointsOf data;
          outerLen = (case holeIndices of [] \<Rightarrow> length pts | h # _ \<Rightarrow> min h (length pts));
          ring = [0..<outerLen]
      in clip pts (if signedArea2 (take outerLen pts) < 0 then rev ring else ring))"

section \<open>Notions used in the statements\<close>

subsection \<open>The mesh builder\<close>

text \<open>The projection of one coordinate pair at the radius and elevation of the feature.\<close>

definition project :: "real \<Rightarrow> real \<Rightarrow> coord \<Rightarrow> vec3" where
  "project rad elev c = (case c of (lon, lat) \<Rightarrow> lonLatToCartesian lon lat (rad + elev))"

text \<open>The numbers and the hole starts the triangulator receives for a polygon.\<close>

definition flatten2D :: "coord list \<Rightarrow> real list" where
  "flatten2D cs = concat (map (\<lambda>(lon, lat). [lon, lat]) cs)"

fun holeStarts :: "nat \<Rightarrow> ring list \<Rightarrow> nat list" where
  "holeStarts n [] = []"
| "holeStarts n (ring # rest) = n # holeStarts (n + length ring) rest"

definition polygonTriangles :: "triangulator \<Rightarrow> polygon \<Rightarrow> nat list" where
  "polygonTriangles earcut rings = earcut (flatten2D (concat rings)) (tl (holeStarts 0 rings))"

text \<open>The vertices of a position buffer: three numbers each.\<close>

fun vertices :: "real list \<Rightarrow> vec3 list" where
  "vertices (x # y # z # rest) = (x, y, z) # vertices rest"
| "vertices rest = []"


subsection \<open>The assembler\<close>

text \<open>
  The assembler in the words of the specification: the region mesh of the feature at a
  position, built with the palette colour at the position modulo the size of the palette and
  tagged with the identity of the region, or none; and the group, the region meshes of the
  collection in order.
\<close>

definition regionMesh :: "triangulator \<Rightarrow> nat \<Rightarrow> feature \<Rightarrow> mesh option" where
  "regionMesh earcut index f =
     (case properties f of
        None \<Rightarrow> None
      | Some p \<Rightarrow>
          (case snd (createProvinceMeshFromFeature earcut f
                       (featureOptions (index mod length provinceColors))) of
             Inr (Some m) \<Rightarrow>
               Some (m\<lparr>userData := userData m ++
                        [''provinceName'' \<mapsto> getProp p ''name'', ''adcode'' \<mapsto> getProp p ''adcode'',
                         ''isProvince'' \<mapsto> JBool True]\<rparr>)
           | _ \<Rightarrow> None))"

definition assembled :: "triangulator \<Rightarrow> feature list \<Rightarrow> mesh list" where
  "assembled earcut fs =
     List.map_filter (\<lambda>(index, f). regionMesh earcut index f) (enumerate 0 fs)"

text \<open>Whether the body of the loop throws for the feature at a position.\<close>

definition featureThrows :: "triangulator \<Rightarrow> nat \<Rightarrow> feature \<Rightarrow> bool" where
  "featureThrows earcut index f \<longleftrightarrow>
     properties f = None \<or>
     isl (snd (createProvinceMeshFromFeature earcut f
                 (featureOptions (index mod length provinceColors))))"

subsection \<open>The pointer controller\<close>

text \<open>An object that the loops over the hits accept.\<close>

definition pickable :: "(nat \<Rightarrow> props) \<Rightarrow> nat \<Rightarrow> bool" where
  "pickable ud obj = truthy (getProp (ud obj) ''isProvince'')"

text \<open>The hover invariant, with what it says of the materials the scene started with.\<close>

definition hoverInv :: "(nat \<Rightarrow> nat) \<Rightarrow> controller \<Rightarrow> bool" where
  "hoverInv mats c \<longleftrightarrow>
     dom (originalMaterials c) = set_option (hoveredProvince c) \<and>
     (\<forall>obj. Some obj \<noteq> hoveredProvince c \<longrightarrow> objectMaterial c obj = mats obj) \<and>
     (\<forall>h. hoveredProvince c = Some h \<longrightarrow> originalMaterials c h = Some (mats h))"

text \<open>
  Every material an object refers to, and every saved one, was created before the next
  address to be given out.
\<close>

definition allocated :: "controller \<Rightarrow> bool" where
  "allocated c \<longleftrightarrow>
     (\<forall>obj. objectMaterial c obj < nextMaterial c) \<and>
     (\<forall>obj m. originalMaterials c obj = Some m \<longrightarrow> m < nextMaterial c)"

subsection \<open>Convex rings\<close>

text \<open>
  A ring that is a simple, strictly convex polygon: every three of its vertices, taken in
  ring order, turn the same way, counter-clockwise or clockwise.  The list holds every
  vertex once, without the repeated first point of a closed ring, and no three vertices
  lie on a line.
\<close>

definition convexCCW :: "point list \<Rightarrow> bool" where
  "convexCCW ps \<longleftrightarrow> (\<forall>i j k. i < j \<and> j < k \<and> k < length ps \<longrightarrow> 0 < orient (ps ! i) (ps ! j) (ps ! k))"

definition convexCW :: "point list \<Rightarrow> bool" where
  "convexCW ps \<longleftrightarrow> (\<forall>i j k. i < j \<and> j < k \<and> k < length ps \<longrightarrow> orient (ps ! i) (ps ! j) (ps ! k) < 0)"

definition strictlyConvex :: "point list \<Rightarrow> bool" where
  "strictlyConvex ps \<longleftrightarrow> convexCCW ps \<or> convexCW ps"

text \<open>Twice the signed area as the sum over the triangles of the fan at the first vertex.\<close>

fun fan :: "point \<Rightarrow> point list \<Rightarrow> real" where
  "fan a (b # c # rest) = orient a b c + fan a (c # rest)"
| "fan a [] = 0"
| "fan a [b] = 0"

section \<open>Concrete inputs\<close>

text \<open>
  Two stand-ins for the triangulator in evaluations: one answers every polygon with the
  triangle of the vertices 2, 0, 1, which is the one ear of a ring that has three distinct
  vertices; the other finds no triangle, as for a degenerate ring.
\<close>

definition singleEar :: triangulator where
  "singleEar d h = [2, 0, 1]"

definition noEar :: triangulator where
  "noEar d h = []"

definition octantA :: ring where
  "octantA = [(-180, 0), (-90, 0), (-135, 90), (-180, 0)]"

definition octantB :: ring where
  "octantB = [(90, 0), (0, 0), (45, -90), (90, 0)]"

definition noOptions :: options where
  "noOptions = \<lparr>opt_radius = None, opt_elevation = None, opt_materialOptions = None\<rparr>"

definition twoOctants :: feature where
  "twoOctants = \<lparr>geometry = Some (MultiPolygon [[octantA], [octantB]]),
                  properties = Some [''name'' \<mapsto> JStr ''AB'']\<rparr>"

definition twoOctantsMesh :: mesh where
  "twoOctantsMesh =
     \<lparr>position =
        [0, 101 / 50, 0,  - (101 / 50), 0, 0,  0, 0, 101 / 50,
         0, 101 / 50, 0,  - (101 / 50), 0, 0,  0, 0, 101 / 50],
      mesh_material = defaultMat,
      userData = [''name'' \<mapsto> JStr ''AB'', ''isProvince'' \<mapsto> JBool True]\<rparr>"

definition pointFeature :: feature where
  "pointFeature = \<lparr>geometry = Some (OtherGeometry ''Point''),
                    properties = Some [''name'' \<mapsto> JStr ''P'']\<rparr>"

definition degenerateFeature :: feature where
  "degenerateFeature = \<lparr>geometry = Some (Polygon [[(0, 0), (0, 0)]]),
                         properties = Some [''name'' \<mapsto> JStr ''D'']\<rparr>"

definition degenerateParts :: feature where
  "degenerateParts = \<lparr>geometry = Some (MultiPolygon [[[(0, 0), (0, 0)]], []]),
                       properties = None\<rparr>"

definition provinceA :: feature where
  "provinceA = \<lparr>geometry = Some (Polygon [octantA]),
                 properties = Some [''name'' \<mapsto> JStr ''A'', ''adcode'' \<mapsto> JNum 11,
                                    ''isProvince'' \<mapsto> JBool False]\<rparr>"

definition provinceB :: feature where
  "provinceB = \<lparr>geometry = Some (Polygon [octantB]),
                 properties = Some [''name'' \<mapsto> JStr ''B'', ''adcode'' \<mapsto> JNum 12]\<rparr>"

definition noGeometry :: feature where
  "noGeometry = \<lparr>geometry = None, properties = Some [''name'' \<mapsto> JStr ''N'']\<rparr>"

definition provinceABuilt :: mesh where
  "provinceABuilt =
     \<lparr>position = [0, 101 / 50, 0,  - (101 / 50), 0, 0,  0, 0, 101 / 50],
      mesh_material = defaultMat,
      userData = [''name'' \<mapsto> JStr ''A'', ''adcode'' \<mapsto> JNum 11,
                  ''isProvince'' \<mapsto> JBool True]\<rparr>"

definition threeFeatures :: "feature list" where
  "threeFeatures = [provinceA, pointFeature, provinceB]"

definition brokenCollection :: "feature list" where
  "brokenCollection = [provinceA, noGeometry, provinceB]"

definition sceneData :: "nat \<Rightarrow> props" where
  "sceneData obj =
     (if obj = 1 then [''provinceName'' \<mapsto> JStr ''A'', ''isProvince'' \<mapsto> JBool True]
      else if obj = 2 then [''provinceName'' \<mapsto> JStr ''B'', ''isProvince'' \<mapsto> JBool True]
      else Map.empty)"

definition sceneMaterials :: "nat \<Rightarrow> nat" where
  "sceneMaterials obj = (if obj < 3 then obj else 0)"

definition scene0 :: controller where
  "scene0 = initRaycaster sceneMaterials (\<lambda>a. defaultMat) 3"

definition overA :: event where
  "overA = \<lparr>clientX = 100, clientY = 100, now = 1000, intersects = [1, 0]\<rparr>"

definition overB :: event where
  "overB = \<lparr>clientX = 250, clientY = 100, now = 1010, intersects = [0, 2]\<rparr>"

definition overSpace :: event where
  "overSpace = \<lparr>clientX = 100, clientY = 100, now = 1050, intersects = []\<rparr>"

definition downAt :: event where
  "downAt = \<lparr>clientX = 100, clientY = 100, now = 1000, intersects = [0, 1]\<rparr>"

definition upOnA :: event where
  "upOnA = \<lparr>clientX = 101, clientY = 100, now = 1050, intersects = [0, 1]\<rparr>"

definition unitSquare :: ring where
  "unitSquare = [(0, 0), (1, 0), (1, 1), (0, 1)]"

definition squareFeature :: feature where
  "squareFeature = \<lparr>geometry = Some (Polygon [unitSquare]), properties = None\<rparr>"

definition closedSquare :: ring where
  "closedSquare = [(0, 0), (1, 0), (1, 1), (0, 1), (0, 0)]"

definition closedSquareFeature :: feature where
  "closedSquareFeature = \<lparr>geometry = Some (Polygon [closedSquare]), properties = None\<rparr>"

section \<open>The projector\<close>


lemma project_equator_west: "lonLatToCartesian (-180) 0 r = (- r, 0, 0)"
  by (simp add: lonLatToCartesian_def)

lemma project_equator_m90: "lonLatToCartesian (-90) 0 r = (0, 0, r)"
  by (simp add: lonLatToCartesian_def)

lemma project_north_pole: "lonLatToCartesian lon 90 r = (0, r, 0)"
  by (simp add: lonLatToCartesian_def)

lemma project_equator_0: "lonLatToCartesian 0 0 r = (r, 0, 0)"
  by (simp add: lonLatToCartesian_def)

lemma project_equator_90: "lonLatToCartesian 90 0 r = (0, 0, - r)"
proof -
  have phi: "(90 - 0) * (pi / 180) = pi / 2" by simp
  have theta: "(90 + 180) * (pi / 180) = 3 / 2 * pi" by simp
  have "lonLatToCartesian 90 0 r =
          (- (sin (pi / 2) * cos (3 / 2 * pi)) * r, cos (pi / 2) * r,
           sin (pi / 2) * sin (3 / 2 * pi) * r)"
    unfolding lonLatToCartesian_def Let_def phi theta ..
  also have "\<dots> = (0, 0, - r)"
    by (simp only: sin_3over2_pi cos_3over2_pi sin_pi_half cos_pi_half) simp
  finally show ?thesis .
qed

lemma project_south_pole: "lonLatToCartesian lon (-90) r = (0, - r, 0)"
  by (simp add: lonLatToCartesian_def)

section \<open>The mesh builder\<close>

lemma flatten2D_Nil [simp]: "flatten2D [] = []"
  by (simp add: flatten2D_def)

lemma flatten2D_append [simp]: "flatten2D (xs @ ys) = flatten2D xs @ flatten2D ys"
  by (simp add: flatten2D_def)

lemma length_flatten2D [simp]: "length (flatten2D cs) = 2 * length cs"
  by (induction cs) (auto simp: flatten2D_def)

lemma forEachCoord_eq:
  "forEachCoord rad elev ring (flat2D, g3) =
     (flat2D @ flatten2D ring, g3 @ map (project rad elev) ring)"
  by (induction ring arbitrary: flat2D g3) (auto simp: flatten2D_def project_def)

lemma forEachRing_eq:
  "even (length flat2D) \<Longrightarrow> forEachRing rad elev rings rIndex (flat2D, holeIndices, g3) =
     (flat2D @ flatten2D (concat rings),
      holeIndices @ (if rIndex > 0 then holeStarts (length flat2D div 2) rings
                     else tl (holeStarts (length flat2D div 2) rings)),
      g3 @ map (project rad elev) (concat rings))"
proof (induction rings arbitrary: rIndex flat2D holeIndices g3)
  case Nil
  then show ?case by simp
next
  case (Cons ring rest)
  have "(length flat2D + 2 * length ring) div 2 = length flat2D div 2 + length ring"
    using Cons.prems by (auto elim!: evenE)
  with Cons show ?case
    by (simp add: forEachCoord_eq)
qed

lemma emitTriangles_eq:
  "emitTriangles g3 tris pos =
     (if 3 dvd length tris \<and> (\<forall>i \<in> set tris. i < length g3)
      then Inr (pos @ concat (map (\<lambda>i. spread (g3 ! i)) tris))
      else Inl TypeError)"
proof (induction g3 tris pos rule: emitTriangles.induct)
  case (1 g3 ia ib ic rest pos)
  have "3 dvd length (ia # ib # ic # rest) \<longleftrightarrow> 3 dvd length rest"
    by (simp add: dvd_add_left_iff) presburger
  with 1 show ?case by auto
next
  case (2 g3 pos)
  then show ?case by simp
next
  case (3 g3 ia pos)
  then show ?case by simp
next
  case (4 g3 ia ib pos)
  have "\<not> (3::nat) dvd Suc (Suc 0)" by presburger
  then show ?case by simp
qed

lemma processPolygon_eq:
  "processPolygon earcut rad elev rings st =
     (let g3 = geom3DVertices st @ map (project rad elev) (concat rings);
          tris = polygonTriangles earcut rings
      in if 3 dvd length tris \<and> (\<forall>i \<in> set tris. i < length g3)
         then Inr \<lparr>geomPositions = geomPositions st @ concat (map (\<lambda>i. spread (g3 ! i)) tris),
                   geom3DVertices = g3\<rparr>
         else Inl TypeError)"
  by (simp add: processPolygon_def forEachRing_eq emitTriangles_eq polygonTriangles_def Let_def)

lemma vertices_spread [simp]: "vertices (spread v @ rest) = v # vertices rest"
  by (cases v) (simp add: spread_def)

lemma vertices_concat_spread [simp]: "vertices (concat (map spread vs)) = vs"
  by (induction vs) auto





lemma created_position:
  assumes "snd (createProvinceMeshFromFeature earcut f opts) = Inr (Some m)"
  shows "\<exists>st. snd (buildPositions earcut f opts) = Inr st \<and> position m = geomPositions st
           \<and> geomPositions st \<noteq> []"
  using assms
  by (auto simp: createProvinceMeshFromFeature_def split: prod.splits sum.splits if_splits)

lemma projected_octantA:
  "map (project rad elev) octantA =
     [(- (rad + elev), 0, 0), (0, 0, rad + elev), (0, rad + elev, 0), (- (rad + elev), 0, 0)]"
  by (simp add: octantA_def project_def project_equator_west project_equator_m90 project_north_pole)

lemma projected_octantB:
  "map (project rad elev) octantB =
     [(0, 0, - (rad + elev)), (rad + elev, 0, 0), (0, - (rad + elev), 0), (0, 0, - (rad + elev))]"
  by (simp add: octantB_def project_def project_equator_0 project_equator_90 project_south_pole)

lemma two_octants_eval:
  "createProvinceMeshFromFeature singleEar twoOctants noOptions =
     ([], Inr (Some twoOctantsMesh))"
  by (simp add: createProvinceMeshFromFeature_def buildPositions_def twoOctants_def
      processPolygon_def singleEar_def octantA_def octantB_def project_equator_west
      project_equator_m90
      project_north_pole project_equator_0 project_equator_90 project_south_pole
      optRadius_def optElevation_def noOptions_def spread_def twoOctantsMesh_def
      assignMaterial_def defaultMat_def optMaterialOptions_def noMaterialOptions_def)

lemma processPolygon_length:
  assumes "processPolygon earcut rad elev rings st = Inr st'"
  shows "length (geomPositions st') =
           length (geomPositions st) + 3 * length (polygonTriangles earcut rings)"
    and "3 dvd length (polygonTriangles earcut rings)"
proof -
  have len: "length (concat (map (\<lambda>i. spread (g ! i)) tris)) = 3 * length tris"
    for g :: "vec3 list" and tris
    by (induction tris) (auto simp: spread_def split: prod.splits)
  from assms show "length (geomPositions st') =
           length (geomPositions st) + 3 * length (polygonTriangles earcut rings)"
    by (auto simp: processPolygon_eq Let_def len split: if_splits)
  from assms show "3 dvd length (polygonTriangles earcut rings)"
    by (auto simp: processPolygon_eq Let_def split: if_splits)
qed

lemma processPolygon_whole_triangles:
  assumes "processPolygon earcut rad elev rings st = Inr st'"
    and "9 dvd length (geomPositions st)"
  shows "9 dvd length (geomPositions st')"
proof -
  from processPolygon_length(2) [OF assms(1)]
  obtain k where "length (polygonTriangles earcut rings) = 3 * k" ..
  with processPolygon_length(1) [OF assms(1)] assms(2) show ?thesis
    by simp
qed

lemma forEachPolygon_whole_triangles:
  "forEachPolygon earcut rad elev polys st = Inr st' \<Longrightarrow> 9 dvd length (geomPositions st)
     \<Longrightarrow> 9 dvd length (geomPositions st')"
proof (induction polys arbitrary: st)
  case Nil
  then show ?case by simp
next
  case (Cons p ps)
  then show ?case
    by (auto split: sum.splits dest: processPolygon_whole_triangles)
qed

lemma buildPositions_whole_triangles:
  assumes "snd (buildPositions earcut f opts) = Inr st"
  shows "9 dvd length (geomPositions st)"
proof (cases "geometry f")
  case None
  with assms show ?thesis by (simp add: buildPositions_def)
next
  case (Some g)
  show ?thesis
  proof (cases g)
    case (Polygon rings)
    with Some assms show ?thesis
      by (auto simp: buildPositions_def dest: processPolygon_whole_triangles)
  next
    case (MultiPolygon polys)
    with Some assms show ?thesis
      by (auto simp: buildPositions_def dest: forEachPolygon_whole_triangles)
  next
    case (OtherGeometry t)
    with Some assms show ?thesis
      by (auto simp: buildPositions_def)
  qed
qed

lemma forEachPolygon_no_triangles:
  "\<forall>p \<in> set polys. polygonTriangles earcut p = [] \<Longrightarrow>
     \<exists>g3. forEachPolygon earcut rad elev polys st = Inr (st\<lparr>geom3DVertices := g3\<rparr>)"
proof (induction polys arbitrary: st)
  case Nil
  show ?case by (auto intro: exI [of _ "geom3DVertices st"])
next
  case (Cons p ps)
  then have p: "polygonTriangles earcut p = []" and ps: "\<forall>p \<in> set ps. polygonTriangles earcut p = []"
    by auto
  define st1 where "st1 = st\<lparr>geom3DVertices := geom3DVertices st @ map (project rad elev) (concat p)\<rparr>"
  have "processPolygon earcut rad elev p st = Inr st1"
    by (simp add: processPolygon_eq p st1_def)
  moreover from Cons.IH [OF ps, of st1] obtain g3
    where "forEachPolygon earcut rad elev ps st1 = Inr (st1\<lparr>geom3DVertices := g3\<rparr>)" ..
  ultimately show ?case
    by (auto simp: st1_def)
qed

text \<open>
  The buffer of a MultiPolygon of two polygons: the indices found for the second polygon are
  read in the array of the whole feature, which starts with the vertices of the first.
\<close>

lemma second_polygon_reads_feature_array:
  assumes "forEachPolygon earcut rad elev [p, q] \<lparr>geomPositions = [], geom3DVertices = []\<rparr> = Inr st"
  shows "geomPositions st =
     concat (map (\<lambda>i. spread (map (project rad elev) (concat p) ! i)) (polygonTriangles earcut p)) @
     concat (map (\<lambda>i. spread ((map (project rad elev) (concat p) @
                                 map (project rad elev) (concat q)) ! i))
               (polygonTriangles earcut q))"
  using assms
  by (auto simp: processPolygon_eq Let_def split: sum.splits if_splits)

text \<open>
  C1 fails on the code.  \<^verbatim>\<open>geom3DVertices\<close> is one array for the whole feature, and the
  indices the triangulator returns count from the start of the polygon it was given; from
  the second polygon of a MultiPolygon on, they select vertices of the first.  For the
  feature of two octants, with the triangle (2, 0, 1) found in each, the buffer holds the
  triangle of the first octant twice and no projected vertex of the second.
\<close>

theorem multipolygon_reads_first_polygon:
  "createProvinceMeshFromFeature singleEar twoOctants noOptions
     = ([], Inr (Some twoOctantsMesh)) \<and>
   vertices (position twoOctantsMesh) =
     [(0, 101 / 50, 0), (- (101 / 50), 0, 0), (0, 0, 101 / 50),
      (0, 101 / 50, 0), (- (101 / 50), 0, 0), (0, 0, 101 / 50)] \<and>
   map (project 2 (2 / 100)) octantA =
     [(- (101 / 50), 0, 0), (0, 0, 101 / 50), (0, 101 / 50, 0), (- (101 / 50), 0, 0)] \<and>
   map (project 2 (2 / 100)) octantB =
     [(0, 0, - (101 / 50)), (101 / 50, 0, 0), (0, - (101 / 50), 0), (0, 0, - (101 / 50))]"
  by (simp add: two_octants_eval projected_octantA projected_octantB)
    (simp add: twoOctantsMesh_def)

text \<open>
  C4.  The builder returns \<^verbatim>\<open>null\<close> exactly when it finishes with an empty position
  buffer.  A mesh it returns has a buffer that is not empty and holds whole triangles, nine
  numbers each.  A geometry that is neither a Polygon nor a MultiPolygon gives the warning
  and \<^verbatim>\<open>null\<close>, and a Polygon or MultiPolygon for which the triangulator finds no triangle
  gives \<^verbatim>\<open>null\<close>: in neither case is anything thrown.
\<close>

theorem no_mesh_iff_empty_buffer:
  "(snd (createProvinceMeshFromFeature earcut f opts) = Inr None \<longleftrightarrow>
      (\<exists>st. snd (buildPositions earcut f opts) = Inr st \<and> geomPositions st = [])) \<and>
   (\<forall>m. snd (createProvinceMeshFromFeature earcut f opts) = Inr (Some m) \<longrightarrow>
      position m \<noteq> [] \<and> 9 dvd length (position m)) \<and>
   (\<forall>t. geometry f = Some (OtherGeometry t) \<longrightarrow>
      createProvinceMeshFromFeature earcut f opts = ([UnsupportedGeometry t], Inr None)) \<and>
   (\<forall>rings. geometry f = Some (Polygon rings) \<and> polygonTriangles earcut rings = [] \<longrightarrow>
      createProvinceMeshFromFeature earcut f opts = ([], Inr None)) \<and>
   (\<forall>polys. geometry f = Some (MultiPolygon polys) \<and>
        (\<forall>p \<in> set polys. polygonTriangles earcut p = []) \<longrightarrow>
      createProvinceMeshFromFeature earcut f opts = ([], Inr None))"
proof (intro conjI allI impI)
  show "snd (createProvinceMeshFromFeature earcut f opts) = Inr None \<longleftrightarrow>
      (\<exists>st. snd (buildPositions earcut f opts) = Inr st \<and> geomPositions st = [])"
    by (auto simp: createProvinceMeshFromFeature_def split: prod.splits sum.splits if_splits)
next
  fix m
  assume built: "snd (createProvinceMeshFromFeature earcut f opts) = Inr (Some m)"
  from created_position [OF built] obtain st
    where st: "snd (buildPositions earcut f opts) = Inr st" "position m = geomPositions st"
      "geomPositions st \<noteq> []"
    by blast
  from st show "position m \<noteq> []"
    by simp
  from buildPositions_whole_triangles [OF st(1)] st(2) show "9 dvd length (position m)"
    by simp
next
  fix t
  assume "geometry f = Some (OtherGeometry t)"
  then show "createProvinceMeshFromFeature earcut f opts = ([UnsupportedGeometry t], Inr None)"
    by (simp add: createProvinceMeshFromFeature_def buildPositions_def)
next
  fix rings
  assume "geometry f = Some (Polygon rings) \<and> polygonTriangles earcut rings = []"
  then show "createProvinceMeshFromFeature earcut f opts = ([], Inr None)"
    by (simp add: createProvinceMeshFromFeature_def buildPositions_def processPolygon_eq)
next
  fix polys
  assume a: "geometry f = Some (MultiPolygon polys) \<and>
        (\<forall>p \<in> set polys. polygonTriangles earcut p = [])"
  define st0 where "st0 = \<lparr>geomPositions = [], geom3DVertices = []\<rparr>"
  from a forEachPolygon_no_triangles [of polys earcut "optRadius opts" "optElevation opts" st0]
  obtain g3 where "forEachPolygon earcut (optRadius opts) (optElevation opts) polys st0
                     = Inr (st0\<lparr>geom3DVertices := g3\<rparr>)"
    by blast
  with a show "createProvinceMeshFromFeature earcut f opts = ([], Inr None)"
    by (simp add: createProvinceMeshFromFeature_def buildPositions_def st0_def)
qed

text \<open>
  The builder on a Point, on a degenerate Polygon, on a MultiPolygon of degenerate parts (with
  no properties), and on the feature of two octants.
\<close>

theorem no_mesh_iff_empty_buffer_witness:
  "geometry pointFeature = Some (OtherGeometry ''Point'') \<and>
   createProvinceMeshFromFeature singleEar pointFeature noOptions
     = ([UnsupportedGeometry ''Point''], Inr None) \<and>
   geometry degenerateFeature = Some (Polygon [[(0, 0), (0, 0)]]) \<and>
   polygonTriangles noEar [[(0, 0), (0, 0)]] = [] \<and>
   createProvinceMeshFromFeature noEar degenerateFeature noOptions = ([], Inr None) \<and>
   geometry degenerateParts = Some (MultiPolygon [[[(0, 0), (0, 0)]], []]) \<and>
   polygonTriangles noEar [[(0, 0), (0, 0)]] = [] \<and> polygonTriangles noEar [] = [] \<and>
   createProvinceMeshFromFeature noEar degenerateParts noOptions = ([], Inr None) \<and>
   snd (createProvinceMeshFromFeature singleEar twoOctants noOptions)
     = Inr (Some twoOctantsMesh) \<and>
   position twoOctantsMesh \<noteq> [] \<and> 9 dvd length (position twoOctantsMesh)"
proof -
  have point: "geometry pointFeature = Some (OtherGeometry ''Point'')"
    by (simp add: pointFeature_def)
  have degenerate: "geometry degenerateFeature = Some (Polygon [[(0, 0), (0, 0)]]) \<and>
      polygonTriangles noEar [[(0, 0), (0, 0)]] = []"
    by (simp add: degenerateFeature_def polygonTriangles_def noEar_def)
  have parts: "geometry degenerateParts = Some (MultiPolygon [[[(0, 0), (0, 0)]], []]) \<and>
      (\<forall>p \<in> set [[[(0, 0), (0, 0)]], []]. polygonTriangles noEar p = [])"
    by (simp add: degenerateParts_def polygonTriangles_def noEar_def)
  have built: "snd (createProvinceMeshFromFeature singleEar twoOctants noOptions)
                 = Inr (Some twoOctantsMesh)"
    by (simp only: two_octants_eval snd_conv)
  from no_mesh_iff_empty_buffer [of singleEar pointFeature noOptions] point
  have 1: "createProvinceMeshFromFeature singleEar pointFeature noOptions
     = ([UnsupportedGeometry ''Point''], Inr None)"
    by blast
  from no_mesh_iff_empty_buffer [of noEar degenerateFeature noOptions] degenerate
  have 2: "createProvinceMeshFromFeature noEar degenerateFeature noOptions = ([], Inr None)"
    by blast
  from no_mesh_iff_empty_buffer [of noEar degenerateParts noOptions] parts
  have 3: "createProvinceMeshFromFeature noEar degenerateParts noOptions = ([], Inr None)"
    by blast
  from no_mesh_iff_empty_buffer [of singleEar twoOctants noOptions] built
  have 4: "position twoOctantsMesh \<noteq> [] \<and> 9 dvd length (position twoOctantsMesh)"
    by blast
  have "polygonTriangles noEar [] = []"
    by (simp add: polygonTriangles_def noEar_def)
  with point degenerate parts built 1 2 3 4 show ?thesis
    by blast
qed







section \<open>The assembler\<close>

lemma forEachFeature_eq:
  "snd (forEachFeature earcut fs k (out, grp)) =
     (if \<exists>(i, f) \<in> set (enumerate k fs). featureThrows earcut i f then Inl TypeError
      else Inr (grp @ List.map_filter (\<lambda>(i, f). regionMesh earcut i f) (enumerate k fs)))"
proof (induction fs arbitrary: k out grp)
  case Nil
  show ?case by (simp add: map_filter_simps)
next
  case (Cons f fs)
  show ?case
  proof (cases "properties f")
    case None
    then show ?thesis
      by (simp add: featureThrows_def)
  next
    case (Some p)
    obtain warned r where r: "createProvinceMeshFromFeature earcut f
        (featureOptions (k mod length provinceColors)) = (warned, r)"
      by (cases "createProvinceMeshFromFeature earcut f (featureOptions (k mod length provinceColors))")
    show ?thesis
    proof (cases r)
      case (Inl e)
      then have "e = TypeError" by (cases e) simp
      with Some r Inl show ?thesis
        by (simp add: featureThrows_def)
    next
      case (Inr mo)
      show ?thesis
      proof (cases mo)
        case None
        with Some r Inr have "\<not> featureThrows earcut k f" "regionMesh earcut k f = None"
          by (simp_all add: featureThrows_def regionMesh_def)
        with Some r Inr None show ?thesis
          by (simp add: Cons.IH map_filter_simps)
      next
        case (Some m)
        with \<open>properties f = Some p\<close> r Inr
        have "\<not> featureThrows earcut k f"
          "regionMesh earcut k f = Some (m\<lparr>userData := userData m ++
               [''provinceName'' \<mapsto> getProp p ''name'', ''adcode'' \<mapsto> getProp p ''adcode'',
                ''isProvince'' \<mapsto> JBool True]\<rparr>)"
          by (simp_all add: featureThrows_def regionMesh_def)
        with \<open>properties f = Some p\<close> r Inr Some show ?thesis
          by (simp add: Cons.IH map_filter_simps)
      qed
    qed
  qed
qed

lemma exists_enumerate_iff:
  "(\<exists>(i, f) \<in> set (enumerate 0 fs). P i f) \<longleftrightarrow> (\<exists>i < length fs. P i (fs ! i))"
  by (auto simp: in_set_enumerate_eq)

lemma createProvincesFromGeoJson_eq:
  "snd (createProvincesFromGeoJson earcut fs) =
     (if \<exists>i < length fs. featureThrows earcut i (fs ! i) then Inl TypeError
      else Inr (assembled earcut fs))"
  unfolding createProvincesFromGeoJson_def forEachFeature_eq exists_enumerate_iff assembled_def
  by simp

lemma assignMaterial_color:
  "mo_color mo = Some c \<Longrightarrow> color (assignMaterial d mo) = c"
  by (simp add: assignMaterial_def)

lemma regionMesh_color:
  assumes "regionMesh earcut index f = Some m"
  shows "color (mesh_material m) = provinceColors ! (index mod length provinceColors)"
proof -
  from assms obtain p m0 where m0: "snd (createProvinceMeshFromFeature earcut f
        (featureOptions (index mod length provinceColors))) = Inr (Some m0)"
    and m: "mesh_material m = mesh_material m0"
    by (auto simp: regionMesh_def split: option.splits sum.splits)
  from m0 have "mesh_material m0 = assignMaterial defaultMat
      (optMaterialOptions (featureOptions (index mod length provinceColors)))"
    by (auto simp: createProvinceMeshFromFeature_def split: prod.splits sum.splits if_splits)
  with m show ?thesis
    by (simp add: optMaterialOptions_def featureOptions_def assignMaterial_color)
qed

lemma created_isProvince:
  "snd (createProvinceMeshFromFeature earcut f opts) = Inr (Some m) \<Longrightarrow>
     userData m ''isProvince'' = Some (JBool True)"
  by (auto simp: createProvinceMeshFromFeature_def split: prod.splits sum.splits if_splits)

lemma regionMesh_isProvince:
  "regionMesh earcut index f = Some m \<Longrightarrow> userData m ''isProvince'' = Some (JBool True)"
  by (auto simp: regionMesh_def split: option.splits sum.splits)

lemma assembled_isProvince:
  "m \<in> set (assembled earcut fs) \<Longrightarrow> userData m ''isProvince'' = Some (JBool True)"
  by (auto simp: assembled_def map_filter_def dest: regionMesh_isProvince)

lemma built_octantA:
  assumes "geometry f = Some (Polygon [octantA])"
  shows "createProvinceMeshFromFeature singleEar f opts =
     ([], Inr (Some \<lparr>position =
          [0, optRadius opts + optElevation opts, 0,
           - (optRadius opts + optElevation opts), 0, 0,
           0, 0, optRadius opts + optElevation opts],
        mesh_material = assignMaterial defaultMat (optMaterialOptions opts),
        userData = (Map.empty ++ (case properties f of None \<Rightarrow> Map.empty | Some p \<Rightarrow> p))
                     ++ [''isProvince'' \<mapsto> JBool True]\<rparr>))"
  using assms
  by (simp add: createProvinceMeshFromFeature_def buildPositions_def singleEar_def
      processPolygon_def octantA_def project_equator_west project_equator_m90
      project_north_pole spread_def)

lemma built_octantB:
  assumes "geometry f = Some (Polygon [octantB])"
  shows "createProvinceMeshFromFeature singleEar f opts =
     ([], Inr (Some \<lparr>position =
          [0, - (optRadius opts + optElevation opts), 0,
           0, 0, - (optRadius opts + optElevation opts),
           optRadius opts + optElevation opts, 0, 0],
        mesh_material = assignMaterial defaultMat (optMaterialOptions opts),
        userData = (Map.empty ++ (case properties f of None \<Rightarrow> Map.empty | Some p \<Rightarrow> p))
                     ++ [''isProvince'' \<mapsto> JBool True]\<rparr>))"
  using assms
  by (simp add: createProvinceMeshFromFeature_def buildPositions_def singleEar_def
      processPolygon_def octantB_def project_equator_0 project_equator_90
      project_south_pole spread_def)

lemma built_point:
  "createProvinceMeshFromFeature earcut pointFeature opts = ([UnsupportedGeometry ''Point''], Inr None)"
  by (simp add: createProvinceMeshFromFeature_def buildPositions_def pointFeature_def)

lemma built_noGeometry:
  "createProvinceMeshFromFeature earcut noGeometry opts = ([], Inl TypeError)"
  by (simp add: createProvinceMeshFromFeature_def buildPositions_def noGeometry_def)

lemma throws_examples:
  "\<not> featureThrows singleEar i provinceA"
  "\<not> featureThrows singleEar i provinceB"
  "\<not> featureThrows earcut i pointFeature"
  "featureThrows earcut i noGeometry"
proof -
  have "geometry provinceA = Some (Polygon [octantA])" "properties provinceA \<noteq> None"
    by (simp_all add: provinceA_def)
  then show "\<not> featureThrows singleEar i provinceA"
    by (simp add: featureThrows_def built_octantA)
  have "geometry provinceB = Some (Polygon [octantB])" "properties provinceB \<noteq> None"
    by (simp_all add: provinceB_def)
  then show "\<not> featureThrows singleEar i provinceB"
    by (simp add: featureThrows_def built_octantB)
  show "\<not> featureThrows earcut i pointFeature"
    by (simp add: featureThrows_def built_point) (simp add: pointFeature_def)
  show "featureThrows earcut i noGeometry"
    by (simp add: featureThrows_def built_noGeometry)
qed

lemma regionMesh_examples:
  "map_option position (regionMesh singleEar i provinceA)
     = Some [0, 101 / 50, 0,  - (101 / 50), 0, 0,  0, 0, 101 / 50]"
  "map_option position (regionMesh singleEar i provinceB)
     = Some [0, - (101 / 50), 0,  0, 0, - (101 / 50),  101 / 50, 0, 0]"
  "regionMesh earcut i pointFeature = None"
proof -
  have a: "geometry provinceA = Some (Polygon [octantA])"
    by (simp add: provinceA_def)
  show "map_option position (regionMesh singleEar i provinceA)
     = Some [0, 101 / 50, 0,  - (101 / 50), 0, 0,  0, 0, 101 / 50]"
    unfolding regionMesh_def built_octantA [OF a]
    by (simp add: provinceA_def optRadius_def optElevation_def featureOptions_def)
  have b: "geometry provinceB = Some (Polygon [octantB])"
    by (simp add: provinceB_def)
  show "map_option position (regionMesh singleEar i provinceB)
     = Some [0, - (101 / 50), 0,  0, 0, - (101 / 50),  101 / 50, 0, 0]"
    unfolding regionMesh_def built_octantB [OF b]
    by (simp add: provinceB_def optRadius_def optElevation_def featureOptions_def)
  show "regionMesh earcut i pointFeature = None"
    unfolding regionMesh_def built_point
    by (simp add: pointFeature_def)
qed

lemma provinceA_built:
  "snd (createProvinceMeshFromFeature singleEar provinceA noOptions) = Inr (Some provinceABuilt)"
proof -
  have a: "geometry provinceA = Some (Polygon [octantA])"
    by (simp add: provinceA_def)
  show ?thesis
    unfolding built_octantA [OF a]
    by (simp add: provinceA_def provinceABuilt_def optRadius_def optElevation_def noOptions_def
        optMaterialOptions_def assignMaterial_def noMaterialOptions_def defaultMat_def)
qed

lemma assembled_in_order:
  "assembled earcut fs =
     map (\<lambda>i. the (regionMesh earcut i (fs ! i)))
       (filter (\<lambda>i. regionMesh earcut i (fs ! i) \<noteq> None) [0..<length fs])"
proof -
  have "enumerate 0 fs = map (\<lambda>i. (i, fs ! i)) [0..<length fs]"
    by (rule nth_equalityI) (simp_all add: nth_enumerate_eq)
  then show ?thesis
    by (simp add: assembled_def map_filter_def filter_map comp_def)
qed

lemma assembled_colors:
  "map (\<lambda>m. color (mesh_material m)) (assembled earcut fs) =
     map (\<lambda>i. provinceColors ! (i mod length provinceColors))
       (filter (\<lambda>i. regionMesh earcut i (fs ! i) \<noteq> None) [0..<length fs])"
  by (auto simp: assembled_in_order dest: regionMesh_color)

text \<open>
  C6.  The metadata of every mesh the builder returns, and of every mesh in the group of the
  assembler, has \<^verbatim>\<open>isProvince\<close> true, whatever the properties of the feature hold: the
  properties are merged first and the flag is written after them.
\<close>

theorem pickable_flag_forced:
  "(snd (createProvinceMeshFromFeature earcut f opts) = Inr (Some m) \<longrightarrow>
      userData m ''isProvince'' = Some (JBool True) \<and>
      truthy (getProp (userData m) ''isProvince'')) \<and>
   (snd (createProvincesFromGeoJson earcut fs) = Inr grp \<longrightarrow>
      (\<forall>m' \<in> set grp. userData m' ''isProvince'' = Some (JBool True) \<and>
         truthy (getProp (userData m') ''isProvince'')))"
proof (intro conjI impI ballI)
  assume "snd (createProvinceMeshFromFeature earcut f opts) = Inr (Some m)"
  then show m: "userData m ''isProvince'' = Some (JBool True)"
    by (rule created_isProvince)
  then show "truthy (getProp (userData m) ''isProvince'')"
    by (simp add: getProp_def)
next
  fix m'
  assume "snd (createProvincesFromGeoJson earcut fs) = Inr grp" and "m' \<in> set grp"
  then have "m' \<in> set (assembled earcut fs)"
    by (simp add: createProvincesFromGeoJson_eq split: if_splits)
  then show m': "userData m' ''isProvince'' = Some (JBool True)"
    by (rule assembled_isProvince)
  then show "truthy (getProp (userData m') ''isProvince'')"
    by (simp add: getProp_def)
qed

lemma assembled_provinceA:
  "snd (createProvincesFromGeoJson singleEar [provinceA]) = Inr (assembled singleEar [provinceA])"
  "assembled singleEar [provinceA] \<noteq> []"
  "assembled singleEar [provinceA] = [the (regionMesh singleEar 0 provinceA)]"
proof -
  show "snd (createProvincesFromGeoJson singleEar [provinceA])
          = Inr (assembled singleEar [provinceA])"
    by (simp add: createProvincesFromGeoJson_eq throws_examples)
  have "regionMesh singleEar 0 provinceA \<noteq> None"
    using regionMesh_examples(1) [of 0] by auto
  then show "assembled singleEar [provinceA] \<noteq> []"
    "assembled singleEar [provinceA] = [the (regionMesh singleEar 0 provinceA)]"
    by (auto simp: assembled_def map_filter_simps)
qed

text \<open>A feature whose properties say \<^verbatim>\<open>isProvince: false\<close>.\<close>

theorem pickable_flag_forced_witness:
  "getProp (the (properties provinceA)) ''isProvince'' = JBool False \<and>
   snd (createProvinceMeshFromFeature singleEar provinceA noOptions) = Inr (Some provinceABuilt) \<and>
   userData provinceABuilt ''isProvince'' = Some (JBool True) \<and>
   snd (createProvincesFromGeoJson singleEar [provinceA]) = Inr (assembled singleEar [provinceA]) \<and>
   assembled singleEar [provinceA] = [the (regionMesh singleEar 0 provinceA)] \<and>
   userData (the (regionMesh singleEar 0 provinceA)) ''isProvince'' = Some (JBool True)"
proof -
  have "getProp (the (properties provinceA)) ''isProvince'' = JBool False"
    by (simp add: provinceA_def getProp_def)
  moreover have "the (regionMesh singleEar 0 provinceA) \<in> set (assembled singleEar [provinceA])"
    using assembled_provinceA(3) by simp
  ultimately show ?thesis
    using pickable_flag_forced [of singleEar provinceA noOptions provinceABuilt
      "[provinceA]" "assembled singleEar [provinceA]"]
      provinceA_built assembled_provinceA
    by blast
qed

text \<open>
  C7.  The group the assembler returns is the list \<open>assembled\<close> of the specification: the
  features in collection order, each built with the palette colour at its position modulo
  the size of the palette, those without a mesh left out.  So the meshes are those of the
  surviving positions in increasing order, and their colours are the palette entries of
  these positions.  The result is a function of the collection, the palette and the
  triangulator alone, hence the same on every run.
\<close>

theorem assembler_order_and_colors:
  assumes "snd (createProvincesFromGeoJson earcut fs) = Inr grp"
  shows "grp = assembled earcut fs \<and>
         grp = map (\<lambda>i. the (regionMesh earcut i (fs ! i)))
                 (filter (\<lambda>i. regionMesh earcut i (fs ! i) \<noteq> None) [0..<length fs]) \<and>
         map (\<lambda>m. color (mesh_material m)) grp =
           map (\<lambda>i. provinceColors ! (i mod length provinceColors))
             (filter (\<lambda>i. regionMesh earcut i (fs ! i) \<noteq> None) [0..<length fs])"
proof -
  from assms have "grp = assembled earcut fs"
    by (simp add: createProvincesFromGeoJson_eq split: if_splits)
  then show ?thesis
    using assembled_in_order [of earcut fs] assembled_colors [of earcut fs] by simp
qed

lemma three_features_assembled:
  "snd (createProvincesFromGeoJson singleEar threeFeatures)
     = Inr (assembled singleEar threeFeatures)"
proof -
  have "\<not> featureThrows singleEar i f" if "f \<in> set threeFeatures" for i f
    using that by (auto simp: threeFeatures_def throws_examples)
  then have "\<not> (\<exists>i < length threeFeatures. featureThrows singleEar i (threeFeatures ! i))"
    by auto
  then show ?thesis
    by (simp add: createProvincesFromGeoJson_eq)
qed

lemma three_features_survivors:
  "filter (\<lambda>i. regionMesh singleEar i (threeFeatures ! i) \<noteq> None) [0..<length threeFeatures]
     = [0, 2]"
proof -
  have a: "regionMesh singleEar i provinceA \<noteq> None" for i
    using regionMesh_examples(1) [of i] by auto
  have b: "regionMesh singleEar i provinceB \<noteq> None" for i
    using regionMesh_examples(2) [of i] by auto
  have "[0..<length threeFeatures] = [0, Suc 0, Suc (Suc 0)]"
    by (simp add: threeFeatures_def upt_rec)
  then show ?thesis
    by (simp add: threeFeatures_def regionMesh_examples(3) a b numeral_2_eq_2)
qed

text \<open>
  Three features, the second a Point: two meshes, with the colours of the positions 0 and 2.
\<close>

theorem assembler_order_and_colors_witness:
  "snd (createProvincesFromGeoJson singleEar threeFeatures)
     = Inr (assembled singleEar threeFeatures) \<and>
   assembled singleEar threeFeatures =
     map (\<lambda>i. the (regionMesh singleEar i (threeFeatures ! i))) [0, 2] \<and>
   map (\<lambda>m. color (mesh_material m)) (assembled singleEar threeFeatures) = [0xff6b6b, 0x45b7d1]"
proof -
  have colors: "map (\<lambda>i. provinceColors ! (i mod length provinceColors)) [0, 2]
                  = [0xff6b6b, 0x45b7d1]"
    by (simp add: provinceColors_def)
  from assembler_order_and_colors [OF three_features_assembled]
  show ?thesis
    unfolding three_features_survivors colors
    using three_features_assembled by blast
qed

lemma initProvinces_eq:
  "snd (initProvinces earcut (Inr fs) children) =
     (if \<exists>i < length fs. featureThrows earcut i (fs ! i) then children
      else children @ [assembled earcut fs])"
  using createProvincesFromGeoJson_eq [of earcut fs]
  by (cases "createProvincesFromGeoJson earcut fs")
    (auto simp: initProvinces_def split: sum.splits)

lemma initProvinces_logs_failure:
  assumes "snd (createProvincesFromGeoJson earcut fs) = Inl e"
  shows "last (fst (initProvinces earcut (Inr fs) children)) = LoadProvincesFailed e"
  using assms
  by (cases "createProvincesFromGeoJson earcut fs") (auto simp: initProvinces_def)

lemma no_geometry_throws: "geometry f = None \<Longrightarrow> featureThrows earcut i f"
  by (simp add: featureThrows_def createProvinceMeshFromFeature_def buildPositions_def)

text \<open>
  C5, as amended.  When no feature throws, the assembler returns the group with the mesh of
  every feature that has one, and \<^verbatim>\<open>initProvinces\<close> attaches it; a feature with an
  unsupported geometry type does not throw and has no mesh.  An exception is not contained:
  when a feature of the collection has no geometry the assembler throws, \<^verbatim>\<open>initProvinces\<close>
  logs the failure, and the globe gets no group.
\<close>

theorem skipped_features_do_not_abort:
  "((\<forall>i < length fs. \<not> featureThrows earcut i (fs ! i)) \<longrightarrow>
      snd (createProvincesFromGeoJson earcut fs) = Inr (assembled earcut fs) \<and>
      snd (initProvinces earcut (Inr fs) children) = children @ [assembled earcut fs] \<and>
      (\<forall>i < length fs. \<forall>m. regionMesh earcut i (fs ! i) = Some m
          \<longrightarrow> m \<in> set (assembled earcut fs))) \<and>
   (geometry f = Some (OtherGeometry t) \<and> properties f \<noteq> None \<longrightarrow>
      \<not> featureThrows earcut k f \<and> regionMesh earcut k f = None) \<and>
   ((\<exists>f' \<in> set fs. geometry f' = None) \<longrightarrow>
      snd (createProvincesFromGeoJson earcut fs) = Inl TypeError \<and>
      snd (initProvinces earcut (Inr fs) children) = children \<and>
      last (fst (initProvinces earcut (Inr fs) children)) = LoadProvincesFailed TypeError)"
proof (intro conjI impI allI)
  assume ok: "\<forall>i < length fs. \<not> featureThrows earcut i (fs ! i)"
  then show "snd (createProvincesFromGeoJson earcut fs) = Inr (assembled earcut fs)"
    by (simp add: createProvincesFromGeoJson_eq)
  from ok show "snd (initProvinces earcut (Inr fs) children) = children @ [assembled earcut fs]"
    by (simp add: initProvinces_eq)
next
  fix i m
  assume "i < length fs" and "regionMesh earcut i (fs ! i) = Some m"
  then show "m \<in> set (assembled earcut fs)"
    by (force simp: assembled_in_order)
next
  assume a: "geometry f = Some (OtherGeometry t) \<and> properties f \<noteq> None"
  then have "createProvinceMeshFromFeature earcut f (featureOptions (k mod length provinceColors))
               = ([UnsupportedGeometry t], Inr None)"
    by (simp add: createProvinceMeshFromFeature_def buildPositions_def)
  with a show "\<not> featureThrows earcut k f" "regionMesh earcut k f = None"
    by (auto simp: featureThrows_def regionMesh_def)
next
  assume "\<exists>f' \<in> set fs. geometry f' = None"
  then obtain i where "i < length fs" "geometry (fs ! i) = None"
    by (auto simp: in_set_conv_nth)
  then have thr: "\<exists>i < length fs. featureThrows earcut i (fs ! i)"
    using no_geometry_throws by blast
  then show e: "snd (createProvincesFromGeoJson earcut fs) = Inl TypeError"
    by (simp add: createProvincesFromGeoJson_eq)
  from thr show "snd (initProvinces earcut (Inr fs) children) = children"
    by (simp add: initProvinces_eq)
  from e show "last (fst (initProvinces earcut (Inr fs) children)) = LoadProvincesFailed TypeError"
    by (rule initProvinces_logs_failure)
qed

text \<open>
  The collection with a Point in the middle, and the collection with a feature that has no
  geometry in the middle.
\<close>

theorem skipped_features_do_not_abort_witness:
  "\<not> featureThrows singleEar 0 (threeFeatures ! 0) \<and>
   \<not> featureThrows singleEar 1 (threeFeatures ! 1) \<and>
   \<not> featureThrows singleEar 2 (threeFeatures ! 2) \<and> length threeFeatures = 3 \<and>
   snd (initProvinces singleEar (Inr threeFeatures) []) = [assembled singleEar threeFeatures] \<and>
   regionMesh singleEar 2 (threeFeatures ! 2) \<noteq> None \<and>
   the (regionMesh singleEar 2 (threeFeatures ! 2)) \<in> set (assembled singleEar threeFeatures) \<and>
   geometry pointFeature = Some (OtherGeometry ''Point'') \<and> properties pointFeature \<noteq> None \<and>
   regionMesh singleEar 1 pointFeature = None \<and>
   (\<exists>f' \<in> set brokenCollection. geometry f' = None) \<and>
   snd (initProvinces singleEar (Inr brokenCollection) []) = []"
proof -
  have ok: "\<forall>i < length threeFeatures. \<not> featureThrows singleEar i (threeFeatures ! i)"
  proof -
    have "\<not> featureThrows singleEar i f" if "f \<in> set threeFeatures" for i f
      using that by (auto simp: threeFeatures_def throws_examples)
    then show ?thesis by auto
  qed
  have two: "(2::nat) < length threeFeatures" "threeFeatures ! 2 = provinceB"
    by (simp_all add: threeFeatures_def)
  have b: "regionMesh singleEar 2 (threeFeatures ! 2) \<noteq> None"
    using regionMesh_examples(2) [of 2] two(2) by auto
  have point: "geometry pointFeature = Some (OtherGeometry ''Point'') \<and> properties pointFeature \<noteq> None"
    by (simp add: pointFeature_def)
  have broken: "\<exists>f' \<in> set brokenCollection. geometry f' = None"
    by (simp add: brokenCollection_def noGeometry_def)
  from skipped_features_do_not_abort [of threeFeatures singleEar "[]" pointFeature "''Point''" 1]
    ok two(1) b point
  have 1: "snd (initProvinces singleEar (Inr threeFeatures) []) = [assembled singleEar threeFeatures]"
    "the (regionMesh singleEar 2 (threeFeatures ! 2)) \<in> set (assembled singleEar threeFeatures)"
    "regionMesh singleEar 1 pointFeature = None"
    by auto
  from skipped_features_do_not_abort [of brokenCollection singleEar "[]"] broken
  have 2: "snd (initProvinces singleEar (Inr brokenCollection) []) = []"
    by blast
  have "length threeFeatures = 3"
    by (simp add: threeFeatures_def)
  with ok b point broken 1 2 show ?thesis
    by auto
qed

text \<open>
  C5 as stated fails: the two provinces alone give two meshes; with a feature without
  geometry between them the assembler throws and nothing is attached.
\<close>

theorem one_failure_aborts_collection:
  "snd (createProvincesFromGeoJson singleEar [provinceA, provinceB])
     = Inr (assembled singleEar [provinceA, provinceB]) \<and>
   length (assembled singleEar [provinceA, provinceB]) = 2 \<and>
   snd (createProvincesFromGeoJson singleEar brokenCollection) = Inl TypeError \<and>
   snd (initProvinces singleEar (Inr brokenCollection) []) = [] \<and>
   last (fst (initProvinces singleEar (Inr brokenCollection) [])) = LoadProvincesFailed TypeError"
proof -
  have ra: "regionMesh singleEar i provinceA \<noteq> None" for i
    using regionMesh_examples(1) [of i] by auto
  have rb: "regionMesh singleEar i provinceB \<noteq> None" for i
    using regionMesh_examples(2) [of i] by auto
  have "\<not> featureThrows singleEar i f" if "f \<in> set [provinceA, provinceB]" for i f
    using that by (auto simp: throws_examples)
  then have "\<not> (\<exists>i < length [provinceA, provinceB].
                 featureThrows singleEar i ([provinceA, provinceB] ! i))"
    by (metis nth_mem)
  then have 1: "snd (createProvincesFromGeoJson singleEar [provinceA, provinceB])
     = Inr (assembled singleEar [provinceA, provinceB])"
    by (simp only: createProvincesFromGeoJson_eq if_False)
  have 2: "length (assembled singleEar [provinceA, provinceB]) = 2"
    using ra [of 0] rb [of 1]
    by (auto simp: assembled_def map_filter_simps)
  have "Suc 0 < length brokenCollection \<and> featureThrows singleEar (Suc 0) (brokenCollection ! Suc 0)"
    by (simp add: brokenCollection_def throws_examples)
  then have thr: "\<exists>i < length brokenCollection. featureThrows singleEar i (brokenCollection ! i)"
    by blast
  then have 3: "snd (createProvincesFromGeoJson singleEar brokenCollection) = Inl TypeError"
    by (simp only: createProvincesFromGeoJson_eq if_True)
  from thr have 4: "snd (initProvinces singleEar (Inr brokenCollection) []) = []"
    by (simp only: initProvinces_eq if_True)
  from 1 2 3 4 initProvinces_logs_failure [OF 3, of "[]"] show ?thesis
    by blast
qed

section \<open>The pointer controller\<close>

lemma hoverInv_init: "hoverInv mats (initRaycaster mats store n)"
  by (simp add: hoverInv_def initRaycaster_def)

lemma hoverInv_markDragging: "hoverInv mats c \<Longrightarrow> hoverInv mats (markDragging c)"
  by (simp add: hoverInv_def markDragging_def)

lemma restorePrevious_hoverInv:
  assumes "hoverInv mats c"
  shows "originalMaterials (restorePrevious c) = Map.empty"
    and "objectMaterial (restorePrevious c) = mats"
    and "hoveredProvince (restorePrevious c) = hoveredProvince c"
proof -
  show "hoveredProvince (restorePrevious c) = hoveredProvince c"
    by (simp add: restorePrevious_def split: option.splits)
  show "originalMaterials (restorePrevious c) = Map.empty"
  proof (cases "hoveredProvince c")
    case None
    with assms show ?thesis
      by (simp add: restorePrevious_def hoverInv_def)
  next
    case (Some h)
    with assms have "originalMaterials c h = Some (mats h)" "dom (originalMaterials c) = {h}"
      by (simp_all add: hoverInv_def)
    with Some show ?thesis
      by (auto simp: restorePrevious_def fun_eq_iff domIff split: if_splits)
  qed
  show "objectMaterial (restorePrevious c) = mats"
  proof (cases "hoveredProvince c")
    case None
    with assms show ?thesis
      by (auto simp: restorePrevious_def hoverInv_def)
  next
    case (Some h)
    with assms have "originalMaterials c h = Some (mats h)"
      "\<forall>obj. obj \<noteq> h \<longrightarrow> objectMaterial c obj = mats obj"
      by (auto simp: hoverInv_def)
    with Some show ?thesis
      by (auto simp: restorePrevious_def fun_eq_iff)
  qed
qed

lemma hoverInv_onMouseMove:
  assumes "hoverInv mats c"
  shows "hoverInv mats (onMouseMove ud ev c)"
proof -
  define d where "d = markDragging c"
  have d: "hoverInv mats d"
    using assms by (simp add: d_def hoverInv_markDragging)
  show ?thesis
  proof (cases "firstProvince ud (intersects ev) = hoveredProvince d")
    case True
    with d show ?thesis
      by (simp add: onMouseMove_def d_def [symmetric])
  next
    case False
    note r = restorePrevious_hoverInv [OF d]
    show ?thesis
    proof (cases "firstProvince ud (intersects ev)")
      case None
      with False r show ?thesis
        by (simp add: onMouseMove_def d_def [symmetric] highlightCurrent_def hoverInv_def)
    next
      case (Some obj)
      with False r show ?thesis
        by (simp add: onMouseMove_def d_def [symmetric] highlightCurrent_def hoverInv_def Let_def)
    qed
  qed
qed

lemma hoverInv_handle: "hoverInv mats c \<Longrightarrow> hoverInv mats (handle ud e c)"
  by (cases e) (simp_all add: hoverInv_onMouseMove, simp_all add: hoverInv_def onMouseDown_def onMouseUp_def Let_def)

lemma hoverInv_run: "hoverInv mats c \<Longrightarrow> hoverInv mats (run ud es c)"
  by (induction es arbitrary: c) (simp_all add: hoverInv_handle)

text \<open>
  C2.  After every sequence of pointer events from the initial state, the saved-material map
  has an entry for exactly the hovered province, so for at most one object; every object that
  is not hovered has the material the scene started with, and the entry of the hovered one
  is that material.  When the next move leaves the hovered province, the handler first
  restores it (the map is then empty and the province has its material again) and only then
  highlights the new target; the province keeps the restored material at the end of the
  event.
\<close>

theorem hover_invariant:
  "let c = run ud es (initRaycaster mats store n) in
     dom (originalMaterials c) = set_option (hoveredProvince c) \<and>
     card (dom (originalMaterials c)) \<le> 1 \<and>
     (\<forall>obj. Some obj \<noteq> hoveredProvince c \<longrightarrow> objectMaterial c obj = mats obj) \<and>
     (\<forall>h. hoveredProvince c = Some h \<longrightarrow>
        originalMaterials c h = Some (mats h) \<and>
        (\<forall>ev. firstProvince ud (intersects ev) \<noteq> Some h \<longrightarrow>
           onMouseMove ud ev c =
             (highlightCurrent (firstProvince ud (intersects ev))
                (restorePrevious (markDragging c)))
               \<lparr>hoveredProvince := firstProvince ud (intersects ev)\<rparr> \<and>
           originalMaterials (restorePrevious (markDragging c)) = Map.empty \<and>
           objectMaterial (restorePrevious (markDragging c)) h = mats h \<and>
           objectMaterial (onMouseMove ud ev c) h = mats h))"
proof -
  define c where "c = run ud es (initRaycaster mats store n)"
  have inv: "hoverInv mats c"
    unfolding c_def by (intro hoverInv_run hoverInv_init)
  then have dom: "dom (originalMaterials c) = set_option (hoveredProvince c)"
    and others: "\<forall>obj. Some obj \<noteq> hoveredProvince c \<longrightarrow> objectMaterial c obj = mats obj"
    and saved: "\<forall>h. hoveredProvince c = Some h \<longrightarrow> originalMaterials c h = Some (mats h)"
    by (simp_all add: hoverInv_def)
  have card: "card (dom (originalMaterials c)) \<le> 1"
    unfolding dom by (cases "hoveredProvince c") simp_all
  have move: "onMouseMove ud ev c =
             (highlightCurrent (firstProvince ud (intersects ev))
                (restorePrevious (markDragging c)))
               \<lparr>hoveredProvince := firstProvince ud (intersects ev)\<rparr> \<and>
           originalMaterials (restorePrevious (markDragging c)) = Map.empty \<and>
           objectMaterial (restorePrevious (markDragging c)) h = mats h \<and>
           objectMaterial (onMouseMove ud ev c) h = mats h"
    if h: "hoveredProvince c = Some h" and ev: "firstProvince ud (intersects ev) \<noteq> Some h"
    for h ev
  proof -
    have hd: "hoveredProvince (markDragging c) = Some h"
      using h by (simp add: markDragging_def)
    note r = restorePrevious_hoverInv [OF hoverInv_markDragging [OF inv]]
    have 1: "onMouseMove ud ev c =
             (highlightCurrent (firstProvince ud (intersects ev))
                (restorePrevious (markDragging c)))
               \<lparr>hoveredProvince := firstProvince ud (intersects ev)\<rparr>"
      using hd ev by (simp add: onMouseMove_def Let_def)
    have "objectMaterial (highlightCurrent cur (restorePrevious (markDragging c))) h = mats h"
      if "cur \<noteq> Some h" for cur
      using that r(2) by (cases cur) (auto simp: highlightCurrent_def Let_def)
    with ev have "objectMaterial (onMouseMove ud ev c) h = mats h"
      unfolding 1 by simp
    with 1 r show ?thesis
      by simp
  qed
  from dom card others saved move show ?thesis
    unfolding Let_def c_def [symmetric] by blast
qed

lemma scene_run_overA:
  "hoveredProvince (run sceneData [Move overA] scene0) = Some 1"
  "objectMaterial (run sceneData [Move overA] scene0) 1 = 3"
  "originalMaterials (run sceneData [Move overA] scene0) 1 = Some 1"
  by (simp_all add: scene0_def initRaycaster_def onMouseMove_def markDragging_def overA_def
      sceneData_def getProp_def restorePrevious_def highlightCurrent_def sceneMaterials_def
      Let_def)

lemma scene_first_overB: "firstProvince sceneData (intersects overB) = Some 2"
  by (simp add: overB_def sceneData_def getProp_def)

text \<open>The pointer moves over province 1 and then over province 2.\<close>

theorem hover_invariant_witness:
  "hoveredProvince (run sceneData [Move overA] scene0) = Some 1 \<and>
   firstProvince sceneData (intersects overB) \<noteq> Some 1 \<and>
   Some 2 \<noteq> hoveredProvince (run sceneData [Move overA] scene0) \<and>
   dom (originalMaterials (run sceneData [Move overA] scene0)) = {1} \<and>
   objectMaterial (run sceneData [Move overA] scene0) 1 = 3 \<and>
   objectMaterial (run sceneData [Move overA] scene0) 2 = sceneMaterials 2 \<and>
   originalMaterials (run sceneData [Move overA] scene0) 1 = Some (sceneMaterials 1) \<and>
   objectMaterial (restorePrevious (markDragging (run sceneData [Move overA] scene0))) 1
     = sceneMaterials 1 \<and>
   objectMaterial (onMouseMove sceneData overB (run sceneData [Move overA] scene0)) 1
     = sceneMaterials 1"
proof -
  have h: "hoveredProvince (run sceneData [Move overA] scene0) = Some 1"
    by (rule scene_run_overA)
  have b: "firstProvince sceneData (intersects overB) \<noteq> Some 1"
    by (simp add: scene_first_overB)
  have 2: "Some 2 \<noteq> hoveredProvince (run sceneData [Move overA] scene0)"
    unfolding h by simp
  from hover_invariant [of sceneData "[Move overA]" sceneMaterials "\<lambda>a. defaultMat" 3]
    h b 2 scene_run_overA(2)
  show ?thesis
    unfolding Let_def scene0_def [symmetric]
    by auto
qed

lemma firstProvince_find: "firstProvince ud xs = List.find (pickable ud) xs"
  by (induction xs) (simp_all add: pickable_def)

lemma handleValidClick_find:
  "handleValidClick ud xs = map_option (\<lambda>obj. getProp (ud obj) ''provinceName'')
                              (List.find (pickable ud) xs)"
  by (induction xs) (simp_all add: pickable_def)

lemma sqrt_less_5: "sqrt x < 5 \<longleftrightarrow> x < 25"
proof -
  have "sqrt x < sqrt 25 \<longleftrightarrow> x < 25"
    by (rule real_sqrt_less_iff)
  moreover have "sqrt 25 = (5::real)"
    using real_sqrt_abs [of 5] by simp
  ultimately show ?thesis by simp
qed

lemma allocated_restorePrevious: "allocated c \<Longrightarrow> allocated (restorePrevious c)"
  by (auto simp: allocated_def restorePrevious_def split: option.splits)

lemma allocated_highlightCurrent: "allocated c \<Longrightarrow> allocated (highlightCurrent cur c)"
  by (cases cur) (auto simp: allocated_def highlightCurrent_def Let_def less_Suc_eq)

lemma allocated_onMouseMove: "allocated c \<Longrightarrow> allocated (onMouseMove ud ev c)"
proof -
  assume "allocated c"
  then have "allocated (markDragging c)"
    by (simp add: allocated_def markDragging_def)
  then have "allocated (highlightCurrent cur (restorePrevious (markDragging c)))" for cur
    by (intro allocated_highlightCurrent allocated_restorePrevious)
  then have "allocated ((highlightCurrent cur (restorePrevious (markDragging c)))
                          \<lparr>hoveredProvince := cur\<rparr>)" for cur
    by (simp add: allocated_def)
  with \<open>allocated (markDragging c)\<close> show ?thesis
    by (simp add: onMouseMove_def Let_def)
qed

lemma allocated_handle: "allocated c \<Longrightarrow> allocated (handle ud e c)"
  by (cases e) (simp_all add: allocated_onMouseMove, simp_all add: allocated_def onMouseDown_def onMouseUp_def Let_def)

lemma allocated_run: "allocated c \<Longrightarrow> allocated (run ud es c)"
  by (induction es arbitrary: c) (simp_all add: allocated_handle)

lemma allocated_reachable:
  assumes "\<forall>obj. mats obj < n"
  shows "\<forall>obj. objectMaterial (run ud es (initRaycaster mats store n)) obj
           < nextMaterial (run ud es (initRaycaster mats store n))"
proof -
  from assms have "allocated (initRaycaster mats store n)"
    by (simp add: allocated_def initRaycaster_def)
  then have "allocated (run ud es (initRaycaster mats store n))"
    by (rule allocated_run)
  then show ?thesis
    by (simp add: allocated_def)
qed

text \<open>
  C10.  In a scene whose objects refer to allocated materials, as in every state reached
  from such a scene, a move event changes no allocated material object.  When the target is
  the hovered province, no material reference and no saved entry changes.  Otherwise the
  new target has its material saved as it was, that material object is unchanged, and the
  target refers to a material at a new address that is the copy with the emissive colour
  and the opacity set; the province hovered before refers again to the very material saved
  for it; every other object refers to the material it had.
\<close>

theorem move_creates_clone_only:
  assumes "\<forall>obj. objectMaterial c obj < nextMaterial c"
  shows "let cur = firstProvince ud (intersects ev); c' = onMouseMove ud ev c in
     (\<forall>a < nextMaterial c. materialStore c' a = materialStore c a) \<and>
     (cur = hoveredProvince c \<longrightarrow>
        objectMaterial c' = objectMaterial c \<and> originalMaterials c' = originalMaterials c \<and>
        materialStore c' = materialStore c) \<and>
     (cur \<noteq> hoveredProvince c \<longrightarrow>
        (\<forall>obj. cur = Some obj \<longrightarrow>
           originalMaterials c' obj = Some (objectMaterial c obj) \<and>
           materialStore c' (objectMaterial c obj) = materialStore c (objectMaterial c obj) \<and>
           objectMaterial c' obj = nextMaterial c \<and>
           materialStore c' (nextMaterial c) =
             (materialStore c (objectMaterial c obj))\<lparr>emissive := 0x444444, opacity := 9 / 10\<rparr>) \<and>
        (\<forall>h m. hoveredProvince c = Some h \<and> originalMaterials c h = Some m \<longrightarrow>
           objectMaterial c' h = m) \<and>
        (\<forall>obj. Some obj \<noteq> hoveredProvince c \<and> Some obj \<noteq> cur \<longrightarrow>
           objectMaterial c' obj = objectMaterial c obj))"
proof -
  define d where "d = markDragging c"
  have d: "objectMaterial d = objectMaterial c" "originalMaterials d = originalMaterials c"
    "materialStore d = materialStore c" "nextMaterial d = nextMaterial c"
    "hoveredProvince d = hoveredProvince c"
    by (simp_all add: d_def markDragging_def)
  define r where "r = restorePrevious d"
  have r: "materialStore r = materialStore c" "nextMaterial r = nextMaterial c"
    by (simp_all add: r_def restorePrevious_def d split: option.splits)
  have r_other: "objectMaterial r obj = objectMaterial c obj" if "Some obj \<noteq> hoveredProvince c" for obj
    using that by (auto simp: r_def restorePrevious_def d split: option.splits)
  have r_back: "objectMaterial r h = m"
    if "hoveredProvince c = Some h" "originalMaterials c h = Some m" for h m
    using that by (simp add: r_def restorePrevious_def d)
  define cur where "cur = firstProvince ud (intersects ev)"
  define c' where "c' = onMouseMove ud ev c"
  have same: "c' = d" if "cur = hoveredProvince c"
    using that by (simp add: c'_def onMouseMove_def cur_def d_def [symmetric] d Let_def)
  have changed: "c' = (highlightCurrent cur r)\<lparr>hoveredProvince := cur\<rparr>" if "cur \<noteq> hoveredProvince c"
    using that by (simp add: c'_def onMouseMove_def cur_def d_def [symmetric] r_def d Let_def)
  have store: "materialStore c' a = materialStore c a" if "a < nextMaterial c" for a
  proof (cases "cur = hoveredProvince c")
    case True
    then show ?thesis by (simp add: same d)
  next
    case False
    with that show ?thesis
      by (cases cur) (simp_all add: changed highlightCurrent_def Let_def r)
  qed
  have 1: "\<forall>a < nextMaterial c. materialStore c' a = materialStore c a"
    using store by blast
  have 2: "cur = hoveredProvince c \<longrightarrow>
        objectMaterial c' = objectMaterial c \<and> originalMaterials c' = originalMaterials c \<and>
        materialStore c' = materialStore c"
    by (simp add: same d)
  have 3: "originalMaterials c' obj = Some (objectMaterial c obj) \<and>
           materialStore c' (objectMaterial c obj) = materialStore c (objectMaterial c obj) \<and>
           objectMaterial c' obj = nextMaterial c \<and>
           materialStore c' (nextMaterial c) =
             (materialStore c (objectMaterial c obj))\<lparr>emissive := 0x444444, opacity := 9 / 10\<rparr>"
    if "cur \<noteq> hoveredProvince c" "cur = Some obj" for obj
  proof -
    from that have "Some obj \<noteq> hoveredProvince c" by simp
    then have o: "objectMaterial r obj = objectMaterial c obj"
      by (rule r_other)
    from assms have "objectMaterial c obj < nextMaterial c" by simp
    then have "materialStore c' (objectMaterial c obj) = materialStore c (objectMaterial c obj)"
      by (rule store)
    with that o show ?thesis
      by (simp add: changed highlightCurrent_def Let_def r)
  qed
  have 4: "objectMaterial c' h = m"
    if "cur \<noteq> hoveredProvince c" "hoveredProvince c = Some h" "originalMaterials c h = Some m"
    for h m
    using that r_back [OF that(2,3)]
    by (cases cur) (auto simp: changed highlightCurrent_def Let_def)
  have 5: "objectMaterial c' obj = objectMaterial c obj"
    if "cur \<noteq> hoveredProvince c" "Some obj \<noteq> hoveredProvince c" "Some obj \<noteq> cur" for obj
    using that r_other [OF that(2)]
    by (cases cur) (auto simp: changed highlightCurrent_def Let_def)
  from 1 2 3 4 5 show ?thesis
    unfolding Let_def cur_def [symmetric] c'_def [symmetric] by blast
qed

lemma scene0_allocated: "\<forall>obj. objectMaterial scene0 obj < nextMaterial scene0"
  by (simp add: scene0_def initRaycaster_def sceneMaterials_def)

lemma scene0_fields:
  "hoveredProvince scene0 = None" "nextMaterial scene0 = 3" "objectMaterial scene0 1 = 1"
  "objectMaterial scene0 2 = 2" "materialStore scene0 1 = defaultMat"
  by (simp_all add: scene0_def initRaycaster_def sceneMaterials_def)

lemma scene_first_overA: "firstProvince sceneData (intersects overA) = Some 1"
  by (simp add: overA_def sceneData_def getProp_def)

text \<open>The first move over province 1 in the scene of three objects.\<close>

theorem move_creates_clone_only_witness:
  "firstProvince sceneData (intersects overA) = Some 1 \<and> hoveredProvince scene0 = None \<and>
   (1::nat) < nextMaterial scene0 \<and> Some 2 \<noteq> firstProvince sceneData (intersects overA) \<and>
   materialStore (onMouseMove sceneData overA scene0) 1 = defaultMat \<and>
   originalMaterials (onMouseMove sceneData overA scene0) 1 = Some 1 \<and>
   objectMaterial (onMouseMove sceneData overA scene0) 1 = 3 \<and>
   materialStore (onMouseMove sceneData overA scene0) 3 =
     defaultMat\<lparr>emissive := 0x444444, opacity := 9 / 10\<rparr> \<and>
   objectMaterial (onMouseMove sceneData overA scene0) 2 = 2"
proof -
  have "Some 2 \<noteq> firstProvince sceneData (intersects overA)"
    "Some 2 \<noteq> hoveredProvince scene0" "firstProvince sceneData (intersects overA) \<noteq> hoveredProvince scene0"
    "(1::nat) < nextMaterial scene0"
    unfolding scene_first_overA scene0_fields by simp_all
  with move_creates_clone_only [OF scene0_allocated, of sceneData overA]
    scene_first_overA scene0_fields
  show ?thesis
    unfolding Let_def by auto
qed

text \<open>
  C3, as amended.  Pointer-up emits a selection if and only if the click is valid (less than
  200 ms since pointer-down, moved less than 5 units, that is squared distance below 25, and
  not dragging) and the ray cast at the up position hits a province; the selection carries
  the \<^verbatim>\<open>provinceName\<close> of the first province hit.  Pointer-up always resets the time of the
  pending pointer-down and the dragging flag.
\<close>

theorem selection_needs_province_under_pointer:
  "let valid = (now ev - mouseDownTime c < 200 \<and>
                sqrt ((clientX ev - fst (mouseDownPosition c))\<^sup>2
                      + (clientY ev - snd (mouseDownPosition c))\<^sup>2) < 5 \<and>
                \<not> isDragging c)
   in fst (onMouseUp ud ev c) =
        (if valid then map_option (\<lambda>obj. getProp (ud obj) ''provinceName'')
                         (List.find (pickable ud) (intersects ev))
         else None) \<and>
      (fst (onMouseUp ud ev c) \<noteq> None \<longleftrightarrow>
         valid \<and> (\<exists>obj \<in> set (intersects ev). pickable ud obj)) \<and>
      mouseDownTime (snd (onMouseUp ud ev c)) = 0 \<and>
      isDragging (snd (onMouseUp ud ev c)) = False \<and>
      (sqrt ((clientX ev - fst (mouseDownPosition c))\<^sup>2
             + (clientY ev - snd (mouseDownPosition c))\<^sup>2) < 5 \<longleftrightarrow>
       (clientX ev - fst (mouseDownPosition c))\<^sup>2
         + (clientY ev - snd (mouseDownPosition c))\<^sup>2 < 25)"
proof -
  have "List.find (pickable ud) xs \<noteq> None \<longleftrightarrow> (\<exists>obj \<in> set xs. pickable ud obj)" for xs
    by (auto simp: find_None_iff)
  then show ?thesis
    by (auto simp: onMouseUp_def Let_def handleValidClick_find sqrt_less_5)
qed

lemma click_state:
  "mouseDownTime (onMouseDown downAt scene0) = 1000"
  "mouseDownPosition (onMouseDown downAt scene0) = (100, 100)"
  "\<not> isDragging (onMouseDown downAt scene0)"
  by (simp_all add: onMouseDown_def downAt_def)

text \<open>A click on province 1, which lies behind the globe's own mesh in the list of hits.\<close>

theorem selection_needs_province_under_pointer_witness:
  "now upOnA - mouseDownTime (onMouseDown downAt scene0) < 200 \<and>
   (clientX upOnA - fst (mouseDownPosition (onMouseDown downAt scene0)))\<^sup>2
     + (clientY upOnA - snd (mouseDownPosition (onMouseDown downAt scene0)))\<^sup>2 < 25 \<and>
   \<not> isDragging (onMouseDown downAt scene0) \<and>
   List.find (pickable sceneData) (intersects upOnA) = Some 1 \<and>
   fst (onMouseUp sceneData upOnA (onMouseDown downAt scene0)) = Some (JStr ''A'') \<and>
   mouseDownTime (snd (onMouseUp sceneData upOnA (onMouseDown downAt scene0))) = 0"
proof -
  have t: "now upOnA - mouseDownTime (onMouseDown downAt scene0) < 200"
    and p: "(clientX upOnA - fst (mouseDownPosition (onMouseDown downAt scene0)))\<^sup>2
     + (clientY upOnA - snd (mouseDownPosition (onMouseDown downAt scene0)))\<^sup>2 < 25"
    unfolding click_state by (simp_all add: upOnA_def)
  have f: "List.find (pickable sceneData) (intersects upOnA) = Some 1"
    by (simp add: upOnA_def pickable_def sceneData_def getProp_def)
  have n: "getProp (sceneData 1) ''provinceName'' = JStr ''A''"
    by (simp add: sceneData_def getProp_def)
  from selection_needs_province_under_pointer [of upOnA "onMouseDown downAt scene0" sceneData]
    t p click_state(3) n
  show ?thesis
    unfolding Let_def f by simp
qed

text \<open>
  C3 as stated fails: a click that is short, still and not a drag emits nothing when the ray
  hits no province.
\<close>

theorem valid_click_on_empty_space_selects_nothing:
  "now overSpace - mouseDownTime (onMouseDown downAt scene0) < 200 \<and>
   sqrt ((clientX overSpace - fst (mouseDownPosition (onMouseDown downAt scene0)))\<^sup>2
         + (clientY overSpace - snd (mouseDownPosition (onMouseDown downAt scene0)))\<^sup>2) < 5 \<and>
   \<not> isDragging (onMouseDown downAt scene0) \<and>
   fst (onMouseUp sceneData overSpace (onMouseDown downAt scene0)) = None"
  unfolding click_state
  by (simp add: overSpace_def onMouseUp_def onMouseDown_def downAt_def)

section \<open>Ear clipping of a convex ring\<close>

lemma orient_rotate: "orient b c a = orient a b c"
  by (simp add: orient_def algebra_simps)

lemma orient_swap: "orient a c b = - orient a b c"
  by (simp add: orient_def algebra_simps)

lemma orient_cross: "orient a b c = cross2 a b + cross2 b c + cross2 c a"
  by (simp add: orient_def cross2_def algebra_simps)

lemma cross2_self [simp]: "cross2 a a = 0"
  by (simp add: cross2_def)

lemma cross2_swap: "cross2 b a = - cross2 a b"
  by (simp add: cross2_def)

lemma shoelace_fan: "chain2 (a # qs) + cross2 (last (a # qs)) a = fan a qs"
proof (induction a qs rule: fan.induct)
  case (1 a b c rest)
  have "chain2 (a # b # c # rest) + cross2 (last (a # b # c # rest)) a
        = cross2 a b + cross2 b c - cross2 a c
          + (chain2 (a # c # rest) + cross2 (last (a # c # rest)) a)"
    by simp
  also have "\<dots> = orient a b c + fan a (c # rest)"
    unfolding 1 by (simp add: orient_cross cross2_swap [of c a])
  finally show ?case by simp
next
  case (2 a)
  show ?case by simp
next
  case (3 a b)
  show ?case by (simp add: cross2_swap [of b a])
qed

lemma signedArea2_fan: "signedArea2 (a # qs) = fan a qs"
  using shoelace_fan [of a qs] by (simp add: signedArea2_def)

lemma fan_sign:
  "(\<And>i j. i < j \<Longrightarrow> j < length qs \<Longrightarrow> 0 < s * orient a (qs ! i) (qs ! j)) \<Longrightarrow> 0 \<le> s * fan a qs"
proof (induction a qs rule: fan.induct)
  case (1 a b c rest)
  have "0 < s * orient a ((b # c # rest) ! 0) ((b # c # rest) ! 1)"
    by (rule 1) simp_all
  moreover have "0 \<le> s * fan a (c # rest)"
  proof (rule "1.IH")
    fix i j
    assume "i < j" "j < length (c # rest)"
    then have "0 < s * orient a ((b # c # rest) ! Suc i) ((b # c # rest) ! Suc j)"
      by (intro 1) simp_all
    then show "0 < s * orient a ((c # rest) ! i) ((c # rest) ! j)"
      by simp
  qed
  ultimately show ?case by (simp add: distrib_left)
qed simp_all

lemma same_turn_area:
  assumes turn: "\<And>i j k. i < j \<Longrightarrow> j < k \<Longrightarrow> k < length ps
                   \<Longrightarrow> 0 < s * orient (ps ! i) (ps ! j) (ps ! k)"
    and "3 \<le> length ps"
  shows "0 < s * signedArea2 ps"
proof -
  from assms(2) obtain a b c rest where ps: "ps = a # b # c # rest"
    by (auto simp: Suc_le_length_iff numeral_3_eq_3)
  have tri: "0 < s * orient a ((b # c # rest) ! i) ((b # c # rest) ! j)"
    if "i < j" "j < length (b # c # rest)" for i j
  proof -
    have "0 < s * orient (ps ! 0) (ps ! Suc i) (ps ! Suc j)"
      using that by (intro turn) (simp_all add: ps)
    then show ?thesis by (simp add: ps)
  qed
  have "0 < s * orient a b c"
    using tri [of 0 1] by simp
  moreover have "0 \<le> s * fan a (c # rest)"
  proof (rule fan_sign)
    fix i j
    assume "i < j" "j < length (c # rest)"
    with tri [of "Suc i" "Suc j"] show "0 < s * orient a ((c # rest) ! i) ((c # rest) ! j)"
      by simp
  qed
  ultimately show ?thesis
    by (simp add: ps signedArea2_fan distrib_left)
qed

lemma convexCCW_area: "convexCCW ps \<Longrightarrow> 3 \<le> length ps \<Longrightarrow> 0 < signedArea2 ps"
  using same_turn_area [of ps 1] by (simp add: convexCCW_def)

lemma convexCW_area: "convexCW ps \<Longrightarrow> 3 \<le> length ps \<Longrightarrow> signedArea2 ps < 0"
  using same_turn_area [of ps "-1"] by (simp add: convexCW_def)

lemma convexCW_rev:
  assumes "convexCW ps"
  shows "convexCCW (rev ps)"
  unfolding convexCCW_def
proof (intro allI impI)
  fix i j k
  assume ijk: "i < j \<and> j < k \<and> k < length (rev ps)"
  define n where "n = length ps"
  from ijk have "n - Suc k < n - Suc j \<and> n - Suc j < n - Suc i \<and> n - Suc i < length ps"
    by (auto simp: n_def)
  with assms have "orient (ps ! (n - Suc k)) (ps ! (n - Suc j)) (ps ! (n - Suc i)) < 0"
    unfolding convexCW_def by blast
  moreover have "orient (ps ! (n - Suc i)) (ps ! (n - Suc j)) (ps ! (n - Suc k))
                 = - orient (ps ! (n - Suc k)) (ps ! (n - Suc j)) (ps ! (n - Suc i))"
    by (simp add: orient_def algebra_simps)
  ultimately show "0 < orient (rev ps ! i) (rev ps ! j) (rev ps ! k)"
    using ijk by (simp add: rev_nth n_def)
qed

lemma convexCCW_tl:
  assumes "convexCCW qs"
  shows "convexCCW (tl qs)"
  unfolding convexCCW_def
proof (intro allI impI)
  fix i j k
  assume "i < j \<and> j < k \<and> k < length (tl qs)"
  then have ijk: "Suc i < Suc j \<and> Suc j < Suc k \<and> Suc k < length qs"
    by auto
  with assms have "0 < orient (qs ! Suc i) (qs ! Suc j) (qs ! Suc k)"
    unfolding convexCCW_def by blast
  with ijk show "0 < orient (tl qs ! i) (tl qs ! j) (tl qs ! k)"
    by (cases qs) simp_all
qed

lemma first_vertex_is_ear:
  assumes conv: "convexCCW (map ((!) pts) idx)" and n: "3 \<le> length idx"
  shows "isEar pts idx 0"
proof -
  define n where "n = length idx"
  have n3: "3 \<le> n" using n by (simp add: n_def)
  have prev: "prevIx idx 0 = idx ! (n - 1)"
    using n3 by (simp add: prevIx_def n_def)
  have nxt: "nextIx idx 0 = idx ! 1"
    using n3 by (simp add: nextIx_def n_def)
  have turn: "0 < orient (pts ! (idx ! i)) (pts ! (idx ! j)) (pts ! (idx ! k))"
    if "i < j" "j < k" "k < n" for i j k
  proof -
    from that have "i < j \<and> j < k \<and> k < length (map ((!) pts) idx)"
      by (simp add: n_def)
    with conv have "0 < orient (map ((!) pts) idx ! i) (map ((!) pts) idx ! j) (map ((!) pts) idx ! k)"
      unfolding convexCCW_def by blast
    with that show ?thesis by (simp add: n_def)
  qed
  have corner: "0 < orient (pts ! (idx ! (n - 1))) (pts ! (idx ! 0)) (pts ! (idx ! 1))"
    using turn [of 0 1 "n - 1"] n3 orient_rotate [of "pts ! (idx ! 0)" "pts ! (idx ! 1)" "pts ! (idx ! (n - 1))"]
    by simp
  have outside: "pts ! j = pts ! (idx ! (n - 1)) \<or> pts ! j = pts ! (idx ! 0) \<or>
      pts ! j = pts ! (idx ! 1) \<or>
      \<not> inTriangle (pts ! (idx ! (n - 1))) (pts ! (idx ! 0)) (pts ! (idx ! 1)) (pts ! j)"
    if "j \<in> set idx" for j
  proof -
    from that obtain m where m: "m < n" "j = idx ! m"
      by (auto simp: in_set_conv_nth n_def)
    show ?thesis
    proof (cases "m = 0 \<or> m = 1 \<or> m = n - 1")
      case True
      with m show ?thesis by auto
    next
      case False
      with m have "1 < m" "m < n - 1" by auto
      then have "0 < orient (pts ! (idx ! 1)) (pts ! (idx ! m)) (pts ! (idx ! (n - 1)))"
        by (intro turn) simp_all
      then have "orient (pts ! (idx ! 1)) (pts ! (idx ! (n - 1))) (pts ! (idx ! m)) < 0"
        using orient_swap [of "pts ! (idx ! 1)" "pts ! (idx ! (n - 1))" "pts ! (idx ! m)"]
        by linarith
      then show ?thesis
        by (simp add: inTriangle_def m)
    qed
  qed
  show ?thesis
    unfolding isEar_def Let_def prev nxt
    using corner outside by (simp add: list_all_iff)
qed

lemma clip_convex:
  "convexCCW (map ((!) pts) idx) \<Longrightarrow>
     length (clip pts idx) = 3 * (length idx - 2) \<and> set (clip pts idx) \<subseteq> set idx"
proof (induction idx)
  case Nil
  show ?case by (simp add: clip.simps)
next
  case (Cons x rest)
  show ?case
  proof (cases "length (x # rest) < 3")
    case True
    then show ?thesis
      by (simp add: clip.simps [of pts "x # rest"])
  next
    case False
    then have n: "3 \<le> length (x # rest)" by simp
    have "isEar pts (x # rest) 0"
      using Cons.prems n by (rule first_vertex_is_ear)
    moreover have "[0..<length (x # rest)] = 0 # [1..<length (x # rest)]"
      by (subst upt_rec) simp
    ultimately have found: "List.find (isEar pts (x # rest)) [0..<length (x # rest)] = Some 0"
      by (simp only: find.simps if_True)
    have "convexCCW (map ((!) pts) rest)"
      using convexCCW_tl [OF Cons.prems] by simp
    then have IH: "length (clip pts rest) = 3 * (length rest - 2)" "set (clip pts rest) \<subseteq> set rest"
      using Cons.IH by simp_all
    have step: "clip pts (x # rest) =
        [prevIx (x # rest) 0, x, nextIx (x # rest) 0] @ clip pts rest"
      using False found by (simp add: clip.simps [of pts "x # rest"])
    have "prevIx (x # rest) 0 \<in> set (x # rest)" "nextIx (x # rest) 0 \<in> set (x # rest)"
      unfolding prevIx_def nextIx_def by (rule nth_mem, simp)+
    with IH n show ?thesis
      unfolding step by auto
  qed
qed

lemma pointsOf_flatten2D [simp]: "pointsOf (flatten2D ring) = ring"
  by (induction ring) (auto simp: flatten2D_def)

lemma earcutSpec_convex:
  assumes "strictlyConvex ring" and n: "3 \<le> length ring"
  shows "length (earcutSpec (flatten2D ring) []) = 3 * (length ring - 2)"
    and "set (earcutSpec (flatten2D ring) []) \<subseteq> {..<length ring}"
proof -
  define idx where
    "idx = (if signedArea2 ring < 0 then rev [0..<length ring] else [0..<length ring])"
  have spec: "earcutSpec (flatten2D ring) [] = clip ring idx"
    by (simp add: earcutSpec_def idx_def)
  have "convexCCW (map ((!) ring) idx)"
    using assms(1) unfolding strictlyConvex_def
  proof
    assume ccw: "convexCCW ring"
    then have "\<not> signedArea2 ring < 0"
      using convexCCW_area [OF ccw n] by simp
    with ccw show ?thesis
      by (simp add: idx_def map_nth)
  next
    assume cw: "convexCW ring"
    then have "signedArea2 ring < 0"
      using n by (rule convexCW_area)
    moreover have "map ((!) ring) (rev [0..<length ring]) = rev ring"
      by (simp add: rev_map [symmetric] map_nth)
    ultimately show ?thesis
      using convexCW_rev [OF cw] by (simp add: idx_def)
  qed
  from clip_convex [OF this]
  have "length (clip ring idx) = 3 * (length idx - 2)" "set (clip ring idx) \<subseteq> set idx"
    by simp_all
  moreover have "length idx = length ring" "set idx = {..<length ring}"
    by (auto simp: idx_def)
  ultimately show "length (earcutSpec (flatten2D ring) []) = 3 * (length ring - 2)"
    and "set (earcutSpec (flatten2D ring) []) \<subseteq> {..<length ring}"
    by (simp_all add: spec)
qed

lemma length_concat_spread: "length (concat (map (\<lambda>i. spread (g ! i)) tris)) = 3 * length tris"
  by (induction tris) (auto simp: spread_def split: prod.splits)

text \<open>A closed ring: the first point repeated at the end adds no area and no ear.\<close>

lemma orient_twice [simp]: "orient a a b = 0" "orient a b a = 0" "orient a b b = 0"
  by (simp_all add: orient_def)

lemma convexCCW_drop_second:
  assumes "convexCCW (x # y # ys)"
  shows "convexCCW (x # ys)"
  unfolding convexCCW_def
proof (intro allI impI)
  fix i j k
  assume ijk: "i < j \<and> j < k \<and> k < length (x # ys)"
  define up where "up n = (if n = 0 then 0 else Suc n)" for n :: nat
  have nth: "(x # ys) ! n = (x # y # ys) ! up n" for n
    by (cases n) (simp_all add: up_def)
  from ijk have "up i < up j \<and> up j < up k \<and> up k < length (x # y # ys)"
    by (auto simp: up_def)
  with assms have "0 < orient ((x # y # ys) ! up i) ((x # y # ys) ! up j) ((x # y # ys) ! up k)"
    unfolding convexCCW_def by blast
  then show "0 < orient ((x # ys) ! i) ((x # ys) ! j) ((x # ys) ! k)"
    by (simp only: nth)
qed

lemma convexCCW_rotate:
  assumes "convexCCW (xs @ [a])"
  shows "convexCCW (a # xs)"
  unfolding convexCCW_def
proof (intro allI impI)
  fix i j k
  assume ijk: "i < j \<and> j < k \<and> k < length (a # xs)"
  then obtain j' k' where jk: "j = Suc j'" "k = Suc k'" "j' < k'" "k' < length xs"
    by (cases j; cases k) auto
  show "0 < orient ((a # xs) ! i) ((a # xs) ! j) ((a # xs) ! k)"
  proof (cases i)
    case 0
    have "j' < k' \<and> k' < length xs \<and> length xs < length (xs @ [a])"
      using jk by simp
    with assms have "0 < orient ((xs @ [a]) ! j') ((xs @ [a]) ! k') ((xs @ [a]) ! length xs)"
      unfolding convexCCW_def by blast
    with jk have "0 < orient (xs ! j') (xs ! k') a"
      by (simp add: nth_append)
    then show ?thesis
      using orient_rotate [of "xs ! j'" "xs ! k'" a] by (simp add: 0 jk)
  next
    case (Suc i')
    with ijk jk have "i' < j' \<and> j' < k' \<and> k' < length (xs @ [a])"
      by simp
    with assms have "0 < orient ((xs @ [a]) ! i') ((xs @ [a]) ! j') ((xs @ [a]) ! k')"
      unfolding convexCCW_def by blast
    moreover from ijk jk Suc have "i' < length xs" "j' < length xs"
      by simp_all
    ultimately show ?thesis
      using jk by (simp add: Suc nth_append)
  qed
qed

lemma fan_closed: "fan a (qs @ [a]) = fan a qs"
  by (induction a qs rule: fan.induct) simp_all

lemma signedArea2_closed: "ps \<noteq> [] \<Longrightarrow> signedArea2 (ps @ [hd ps]) = signedArea2 ps"
  by (cases ps) (simp_all add: signedArea2_fan fan_closed del: fan.simps)

lemma isEar_turns:
  "isEar pts idx k \<Longrightarrow> 0 < orient (pts ! prevIx idx k) (pts ! (idx ! k)) (pts ! nextIx idx k)"
  by (simp add: isEar_def Let_def)

lemma closed_triangle_has_no_ear:
  assumes "pts ! z = pts ! a"
  shows "List.find (isEar pts [a, m, z]) [0..<length [a, m, z]] = None"
proof -
  have "\<not> isEar pts [a, m, z] k" if "k < 3" for k
  proof -
    from that have "k = 0 \<or> k = 1 \<or> k = 2" by auto
    then have "orient (pts ! prevIx [a, m, z] k) (pts ! ([a, m, z] ! k)) (pts ! nextIx [a, m, z] k) = 0"
      using assms by (auto simp: prevIx_def nextIx_def)
    then show ?thesis
      using isEar_turns [of pts "[a, m, z]" k] by auto
  qed
  then show ?thesis
    by (simp add: find_None_iff)
qed

lemma closed_ring_second_is_ear:
  assumes z: "pts ! z = pts ! a"
    and conv: "convexCCW (map ((!) pts) (a # m1 # m2 # rest))"
  shows "List.find (isEar pts (a # m1 # m2 # rest @ [z])) [0..<length (a # m1 # m2 # rest @ [z])]
           = Some 1"
    and "prevIx (a # m1 # m2 # rest @ [z]) 1 = a"
    and "nextIx (a # m1 # m2 # rest @ [z]) 1 = m2"
proof -
  define idx where "idx = a # m1 # m2 # rest @ [z]"
  define n where "n = length idx"
  have n: "n = length rest + 4"
    by (simp add: n_def idx_def)
  have prev0: "prevIx idx 0 = z"
    by (simp add: prevIx_def idx_def nth_append)
  have prev1: "prevIx idx 1 = a"
    by (simp add: prevIx_def idx_def)
  have next1: "nextIx idx 1 = m2"
    by (simp add: nextIx_def idx_def)
  have not0: "\<not> isEar pts idx 0"
    using isEar_turns [of pts idx 0] by (auto simp: prev0 z) (simp add: idx_def)
  have turn: "0 < orient (pts ! a) (pts ! ((m1 # m2 # rest) ! i)) (pts ! ((m1 # m2 # rest) ! j))"
    if "i < j" "j < length (m1 # m2 # rest)" for i j
  proof -
    from that have "0 < Suc i \<and> Suc i < Suc j \<and> Suc j < length (map ((!) pts) (a # m1 # m2 # rest))"
      by simp
    with conv have "0 < orient (map ((!) pts) (a # m1 # m2 # rest) ! 0)
        (map ((!) pts) (a # m1 # m2 # rest) ! Suc i) (map ((!) pts) (a # m1 # m2 # rest) ! Suc j)"
      unfolding convexCCW_def by blast
    moreover have "map ((!) pts) (a # m1 # m2 # rest) ! Suc i = pts ! ((m1 # m2 # rest) ! i)"
      "map ((!) pts) (a # m1 # m2 # rest) ! Suc j = pts ! ((m1 # m2 # rest) ! j)"
      using that nth_map [of i "m1 # m2 # rest" "(!) pts"] nth_map [of j "m1 # m2 # rest" "(!) pts"]
      by simp_all
    ultimately show ?thesis
      by simp
  qed
  have corner: "0 < orient (pts ! a) (pts ! m1) (pts ! m2)"
    using turn [of 0 1] by simp
  have outside: "pts ! j = pts ! a \<or> pts ! j = pts ! m1 \<or> pts ! j = pts ! m2 \<or>
      \<not> inTriangle (pts ! a) (pts ! m1) (pts ! m2) (pts ! j)" if "j \<in> set idx" for j
  proof -
    from that consider "j = a" | "j = m1" | "j = m2" | "j = z" | "j \<in> set rest"
      by (auto simp: idx_def)
    then show ?thesis
    proof cases
      case 5
      then obtain t where t: "t < length rest" "j = rest ! t"
        by (auto simp: in_set_conv_nth)
      have "0 < orient (pts ! a) (pts ! ((m1 # m2 # rest) ! 1)) (pts ! ((m1 # m2 # rest) ! (t + 2)))"
        using t by (intro turn) simp_all
      then have "0 < orient (pts ! a) (pts ! m2) (pts ! j)"
        by (simp add: t)
      moreover have "orient (pts ! m2) (pts ! a) (pts ! j) = - orient (pts ! a) (pts ! m2) (pts ! j)"
        by (simp add: orient_def algebra_simps)
      ultimately show ?thesis
        by (simp add: inTriangle_def)
    qed (simp_all add: z)
  qed
  have is1: "isEar pts idx 1"
    unfolding isEar_def Let_def prev1 next1
    using corner outside by (simp add: list_all_iff) (simp add: idx_def)
  have "[0..<n] = 0 # 1 # [2..<n]"
    by (simp add: n upt_rec [of 0] upt_rec [of 1] upt_rec [of "Suc 0"] numeral_2_eq_2)
  with not0 is1 have "List.find (isEar pts idx) [0..<n] = Some 1"
    by simp
  then show "List.find (isEar pts (a # m1 # m2 # rest @ [z])) [0..<length (a # m1 # m2 # rest @ [z])]
           = Some 1"
    by (simp only: idx_def n_def)
  from prev1 show "prevIx (a # m1 # m2 # rest @ [z]) 1 = a"
    by (simp only: idx_def)
  from next1 show "nextIx (a # m1 # m2 # rest @ [z]) 1 = m2"
    by (simp only: idx_def)
qed

lemma clip_closed:
  "pts ! z = pts ! a \<Longrightarrow> convexCCW (map ((!) pts) (a # mid)) \<Longrightarrow> mid \<noteq> [] \<Longrightarrow>
     length (clip pts (a # mid @ [z])) = 3 * (length mid - 1) \<and>
     set (clip pts (a # mid @ [z])) \<subseteq> set (a # mid @ [z])"
proof (induction mid rule: induct_list012)
  case 1
  then show ?case by simp
next
  case (2 m)
  from closed_triangle_has_no_ear [OF 2(1), of m]
  show ?case
    by (simp add: clip.simps [of pts "[a, m, z]"])
next
  case (3 m1 m2 rest)
  note ear = closed_ring_second_is_ear [OF "3.prems"(1,2)]
  have "convexCCW (map ((!) pts) (a # m2 # rest))"
    using convexCCW_drop_second [of "pts ! a" "pts ! m1" "map ((!) pts) (m2 # rest)"] "3.prems"(2)
    by simp
  with "3.IH"(2) "3.prems"(1)
  have IH: "length (clip pts (a # (m2 # rest) @ [z])) = 3 * (length (m2 # rest) - 1)"
    "set (clip pts (a # (m2 # rest) @ [z])) \<subseteq> set (a # (m2 # rest) @ [z])"
    by simp_all
  have step: "clip pts (a # (m1 # m2 # rest) @ [z]) = [a, m1, m2] @ clip pts (a # (m2 # rest) @ [z])"
    using ear by (simp add: clip.simps [of pts "a # m1 # m2 # rest @ [z]"])
  from IH show ?case
    unfolding step by auto
qed

lemma map_nth_closed: "map ((!) (ps @ [x])) [0..<length ps] = ps"
proof -
  have "map ((!) (ps @ [x])) [0..<length ps] = map ((!) ps) [0..<length ps]"
    by (rule map_cong) (simp_all add: nth_append)
  then show ?thesis
    by (simp add: map_nth)
qed

lemma earcutSpec_closed_convex:
  assumes "strictlyConvex ps" and n: "3 \<le> length ps"
  shows "length (earcutSpec (flatten2D (ps @ [hd ps])) []) = 3 * (length ps - 2)"
    and "set (earcutSpec (flatten2D (ps @ [hd ps])) []) \<subseteq> {..<length (ps @ [hd ps])}"
proof -
  define N where "N = length ps"
  define pts where "pts = ps @ [hd ps]"
  define idx where "idx = (if signedArea2 ps < 0 then rev [0..<Suc N] else [0..<Suc N])"
  from n have ne: "ps \<noteq> []" and N: "3 \<le> N"
    by (auto simp: N_def)
  have "length pts = Suc N" "signedArea2 pts = signedArea2 ps"
    using ne by (simp_all add: pts_def N_def signedArea2_closed)
  then have spec: "earcutSpec (flatten2D pts) [] = clip pts idx"
    by (simp add: earcutSpec_def idx_def pointsOf_flatten2D del: flatten2D_append)
  have first: "pts ! 0 = hd ps" and last: "pts ! N = hd ps"
    using ne by (simp_all add: pts_def N_def nth_append hd_conv_nth)
  have upt: "[0..<N] = 0 # [Suc 0..<N]" "[Suc 0..<N] \<noteq> []"
    using N by (simp_all add: upt_rec [of 0])
  have mapN: "map ((!) pts) [0..<N] = ps"
    by (simp add: pts_def N_def map_nth_closed)
  then have mapT: "map ((!) pts) [Suc 0..<N] = tl ps"
    unfolding upt(1) using ne by (cases ps) auto
  have "\<exists>a mid z. idx = a # mid @ [z] \<and> pts ! z = pts ! a \<and>
          convexCCW (map ((!) pts) (a # mid)) \<and> mid \<noteq> [] \<and> length mid = N - 1"
    using assms(1) unfolding strictlyConvex_def
  proof
    assume ccw: "convexCCW ps"
    then have "\<not> signedArea2 ps < 0"
      using convexCCW_area [OF ccw n] by simp
    then have "idx = 0 # [Suc 0..<N] @ [N]"
      by (simp add: idx_def upt(1) [symmetric])
    moreover have "convexCCW (map ((!) pts) (0 # [Suc 0..<N]))"
      using ccw by (simp only: upt(1) [symmetric] mapN)
    ultimately show ?thesis
      using first last upt(2) by auto
  next
    assume cw: "convexCW ps"
    then have "signedArea2 ps < 0"
      using n by (rule convexCW_area)
    then have "idx = N # rev [Suc 0..<N] @ [0]"
      by (simp add: idx_def upt(1))
    moreover have "convexCCW (map ((!) pts) (N # rev [Suc 0..<N]))"
    proof -
      have "rev ps = rev (tl ps) @ [hd ps]"
        using ne by (cases ps) simp_all
      with convexCW_rev [OF cw] have "convexCCW (hd ps # rev (tl ps))"
        by (simp add: convexCCW_rotate)
      moreover have "map ((!) pts) (rev [Suc 0..<N]) = rev (tl ps)"
        using rev_map [of "(!) pts" "[Suc 0..<N]"] by (simp only: mapT)
      ultimately show ?thesis
        by (simp add: last)
    qed
    ultimately show ?thesis
      using first last upt(2) by auto
  qed
  then obtain a mid z where idx: "idx = a # mid @ [z]" and "pts ! z = pts ! a"
    "convexCCW (map ((!) pts) (a # mid))" "mid \<noteq> []" and len: "length mid = N - 1"
    by blast
  from clip_closed [OF this(2,3,4)]
  have "length (clip pts idx) = 3 * (length mid - 1)" "set (clip pts idx) \<subseteq> set idx"
    by (simp_all add: idx)
  moreover have "set idx = {..<Suc N}"
    by (auto simp: idx_def)
  ultimately have "length (earcutSpec (flatten2D pts) []) = 3 * (N - 2)"
    "set (earcutSpec (flatten2D pts) []) \<subseteq> {..<Suc N}"
    using N by (simp_all add: spec len)
  then show "length (earcutSpec (flatten2D (ps @ [hd ps])) []) = 3 * (length ps - 2)"
    and "set (earcutSpec (flatten2D (ps @ [hd ps])) []) \<subseteq> {..<length (ps @ [hd ps])}"
    by (simp_all add: pts_def N_def del: flatten2D_append)
qed

text \<open>
  C9, for the triangulator modelled from the specification.  For a simple, strictly convex
  polygon of \<open>N \<ge> 3\<close> vertices, in either orientation and with no hole ring, given as
  the ring of its vertices or as the closed ring that repeats the first vertex at the end,
  ear clipping returns \<open>N - 2\<close> index triples, and the builder run with it on a Polygon
  feature of that ring returns a mesh whose position buffer has \<open>9 * (N - 2)\<close> numbers.
\<close>

theorem convex_polygon_triangle_count:
  assumes "strictlyConvex ps" and "3 \<le> length ps" and "ring = ps \<or> ring = ps @ [hd ps]"
  shows "length (earcutSpec (flatten2D ring) []) = 3 * (length ps - 2) \<and>
         (geometry f = Some (Polygon [ring]) \<longrightarrow>
            (\<exists>m. createProvinceMeshFromFeature earcutSpec f opts = ([], Inr (Some m)) \<and>
                 length (position m) = 9 * (length ps - 2)))"
proof (intro conjI impI)
  have spec: "length (earcutSpec (flatten2D ring) []) = 3 * (length ps - 2)"
    "set (earcutSpec (flatten2D ring) []) \<subseteq> {..<length ring}"
    using assms(3) earcutSpec_convex [OF assms(1,2)] earcutSpec_closed_convex [OF assms(1,2)]
    by auto
  show "length (earcutSpec (flatten2D ring) []) = 3 * (length ps - 2)"
    by (rule spec)
  assume f: "geometry f = Some (Polygon [ring])"
  define tris where "tris = polygonTriangles earcutSpec [ring]"
  have tris: "tris = earcutSpec (flatten2D ring) []"
    by (simp add: tris_def polygonTriangles_def)
  define g3 where "g3 = map (project (optRadius opts) (optElevation opts)) ring"
  define pos where "pos = concat (map (\<lambda>i. spread (g3 ! i)) tris)"
  have ok: "3 dvd length tris" "\<forall>i \<in> set tris. i < length g3"
    using spec by (auto simp: tris g3_def)
  have len: "length pos = 9 * (length ps - 2)"
    using spec(1) by (simp add: pos_def length_concat_spread tris)
  with assms(2) have "pos \<noteq> []"
    by auto
  have "processPolygon earcutSpec (optRadius opts) (optElevation opts) [ring]
          \<lparr>geomPositions = [], geom3DVertices = []\<rparr>
        = Inr \<lparr>geomPositions = pos, geom3DVertices = g3\<rparr>"
    using ok by (simp add: processPolygon_eq Let_def tris_def [symmetric] g3_def [symmetric] pos_def)
  with f \<open>pos \<noteq> []\<close> len
  show "\<exists>m. createProvinceMeshFromFeature earcutSpec f opts = ([], Inr (Some m)) \<and>
             length (position m) = 9 * (length ps - 2)"
    by (simp add: createProvinceMeshFromFeature_def buildPositions_def)
qed

lemma unitSquare_convex: "strictlyConvex unitSquare"
proof -
  have "0 < orient (unitSquare ! i) (unitSquare ! j) (unitSquare ! k)"
    if "i < j \<and> j < k \<and> k < length unitSquare" for i j k
  proof -
    from that have "k = 2 \<or> k = 3" "j = 1 \<or> j = 2" "i = 0 \<or> i = 1"
      by (auto simp: unitSquare_def)
    with that show ?thesis
      by (auto simp: unitSquare_def orient_def)
  qed
  then show ?thesis
    unfolding strictlyConvex_def convexCCW_def by blast
qed

text \<open>The unit square, closed and open: two triangles, eighteen numbers.\<close>

theorem convex_polygon_triangle_count_witness:
  "strictlyConvex unitSquare \<and> 3 \<le> length unitSquare \<and>
   closedSquare = unitSquare @ [hd unitSquare] \<and>
   length (earcutSpec (flatten2D closedSquare) []) = 6 \<and>
   length (earcutSpec (flatten2D unitSquare) []) = 6 \<and>
   geometry closedSquareFeature = Some (Polygon [closedSquare]) \<and>
   (\<exists>m. createProvinceMeshFromFeature earcutSpec closedSquareFeature noOptions
           = ([], Inr (Some m)) \<and> length (position m) = 18)"
proof -
  have n: "3 \<le> length unitSquare" "length unitSquare = 4"
    by (simp_all add: unitSquare_def)
  have c: "closedSquare = unitSquare @ [hd unitSquare]"
    by (simp add: closedSquare_def unitSquare_def)
  have f: "geometry closedSquareFeature = Some (Polygon [closedSquare])"
    by (simp add: closedSquareFeature_def)
  from convex_polygon_triangle_count [OF unitSquare_convex n(1), of closedSquare
      closedSquareFeature noOptions] c f n(2)
  have closed: "length (earcutSpec (flatten2D closedSquare) []) = 6"
    "\<exists>m. createProvinceMeshFromFeature earcutSpec closedSquareFeature noOptions
           = ([], Inr (Some m)) \<and> length (position m) = 18"
    by simp_all
  from convex_polygon_triangle_count [OF unitSquare_convex n(1), of unitSquare] n(2)
  have "length (earcutSpec (flatten2D unitSquare) []) = 6"
    by simp
  with closed unitSquare_convex n(1) c f show ?thesis
    by blast
qed

text \<open>
  The triangles of the unit square, closed and open, and of the first octant given as a
  closed ring.
\<close>

lemma closedSquare_triangles: "earcutSpec (flatten2D closedSquare) [] = [0, 1, 2, 0, 2, 3]"
  by (simp add: earcutSpec_def closedSquare_def flatten2D_def signedArea2_def cross2_def
      clip.simps isEar_def prevIx_def nextIx_def orient_def inTriangle_def upt_rec Let_def)

lemma unitSquare_triangles: "earcutSpec (flatten2D unitSquare) [] = [3, 0, 1, 3, 1, 2]"
  by (simp add: earcutSpec_def unitSquare_def flatten2D_def signedArea2_def cross2_def
      clip.simps isEar_def prevIx_def nextIx_def orient_def inTriangle_def upt_rec Let_def)

lemma closed_ring_triangles: "earcutSpec (flatten2D octantA) [] = [0, 1, 2]"
  by (simp add: earcutSpec_def octantA_def flatten2D_def signedArea2_def cross2_def
      clip.simps isEar_def prevIx_def nextIx_def orient_def inTriangle_def upt_rec Let_def)

end
